theory Spec2Isabelle
  imports Main "HOL-Library.Char_ord" "HOL-Library.List_Lexorder" "HOL-Library.Product_Lexorder"
begin

section \<open>Values of the host language\<close>

text \<open>
  A JavaScript \<^verbatim>\<open>Date\<close> is used by the code only through four observers:
  \<^verbatim>\<open>getTime()\<close> (milliseconds since the epoch) and the UTC calendar fields
  \<^verbatim>\<open>getUTCFullYear()\<close>, \<^verbatim>\<open>getUTCMonth()\<close> (0 to 11) and \<^verbatim>\<open>getUTCDate()\<close>.
  The record keeps the observers' names. Both the ambient clock (\<^verbatim>\<open>new Date()\<close>)
  and the values the driver returns for \<^verbatim>\<open>date\<close> and \<^verbatim>\<open>timestamptz\<close> columns are
  values of this type.
\<close>

record jsdate =
  getTime :: int
  getUTCFullYear :: int
  getUTCMonth :: int
  getUTCDate :: int

text \<open>
  A property of a request object is missing, \<^verbatim>\<open>null\<close>, or a value. \<open>nullish\<close> is
  the expression \<^verbatim>\<open>x ?? null\<close>; \<open>present\<close> is the test \<^verbatim>\<open>f in b\<close>.
\<close>

datatype 'a field = Absent | Null | Val 'a

fun nullish :: "'a field \<Rightarrow> 'a option" where
  "nullish Absent = None"
| "nullish Null = None"
| "nullish (Val v) = Some v"

fun present :: "'a field \<Rightarrow> bool" where
  "present Absent = False"
| "present Null = True"
| "present (Val v) = True"

text \<open>
  The template literal \<^verbatim>\<open>${n}\<close> of an integer that JavaScript holds exactly: its
  decimal digits.
\<close>

definition digit :: "nat \<Rightarrow> char" where
  "digit n = ''0123456789'' ! (n mod 10)"

fun show_nat :: "nat \<Rightarrow> string" where
  "show_nat n = (if n < 10 then [digit n] else show_nat (n div 10) @ [digit n])"

declare show_nat.simps [simp del]

definition show_int :: "int \<Rightarrow> string" where
  "show_int i = (if i < 0 then CHR ''-'' # show_nat (nat (- i)) else show_nat (nat i))"

section \<open>What the libraries and the configuration decide\<close>

text \<open>
  Three things that the handlers use are fixed outside the repository and are
  arguments of the model:
  \<^item> \<open>email_format\<close>: the strings that the validator's \<^verbatim>\<open>format: email\<close> admits;
  \<^item> \<open>collation_key\<close>: the collation of the database, as the key by which it compares
    \<^verbatim>\<open>text\<close>; two strings with the same key are compared character by character, so the
    order of the store on \<^verbatim>\<open>text\<close> is the order of \<open>text_key\<close>;
  \<^item> \<open>number_digits\<close>: the integer whose digits \<^verbatim>\<open>String(n)\<close> prints for a number \<open>n\<close>
    beyond the safe integers (the shortest decimal that reads back as the same double);
    for a safe integer the digits are those of \<open>n\<close> itself.
  A number of a request is the integer that the JavaScript number is; from \<open>10\<^sup>2\<^sup>1\<close> on
  \<^verbatim>\<open>String(n)\<close> is in exponent notation.
\<close>

record env =
  email_format :: "string \<Rightarrow> bool"
  collation_key :: "string \<Rightarrow> string"
  number_digits :: "int \<Rightarrow> int"

definition text_key :: "env \<Rightarrow> string \<Rightarrow> string \<times> string" where
  "text_key E s = (collation_key E s, s)"

definition isSafeInteger :: "int \<Rightarrow> bool" where
  "isSafeInteger n \<longleftrightarrow> - 9007199254740991 \<le> n \<and> n \<le> 9007199254740991"

definition digits_of :: "env \<Rightarrow> int \<Rightarrow> int" where
  "digits_of E n = (if isSafeInteger n then n else number_digits E n)"

section \<open>Derived age\<close>

text \<open>
  \<^verbatim>\<open>computeAge(bday)\<close> of the routes file and of the resolvers (the two copies are
  the same text). The function has one parameter; \<^verbatim>\<open>today\<close> is the value of
  \<^verbatim>\<open>new Date()\<close> read inside the body, so the model takes the clock reading of the
  invocation as its first argument.
\<close>

definition computeAge :: "jsdate \<Rightarrow> jsdate option \<Rightarrow> int option" where
  "computeAge clock bday =
     (case bday of
        None \<Rightarrow> None
      | Some b \<Rightarrow>
          (let today = clock;
               years = getUTCFullYear today - getUTCFullYear b;
               m = getUTCMonth today - getUTCMonth b;
               years = (if m < 0 \<or> (m = 0 \<and> getUTCDate today < getUTCDate b)
                        then years - 1 else years)
           in if years \<ge> 0 \<and> years \<le> 150 then Some years else None))"

text \<open>
  The specification's wording, for comparison with the code: a calendar day as the
  triple (year, month, day) in lexicographic order, the birthday moved forward by
  \<open>n\<close> years, and the whole elapsed years as the difference of the years less one
  when today's (month, day) precedes the birthday's.
\<close>

definition ymd :: "jsdate \<Rightarrow> int \<times> int \<times> int" where
  "ymd d = (getUTCFullYear d, getUTCMonth d, getUTCDate d)"

definition day_le :: "int \<times> int \<times> int \<Rightarrow> int \<times> int \<times> int \<Rightarrow> bool" where
  "day_le a b =
     (case a of (ya, ma, da) \<Rightarrow> case b of (yb, mb, db) \<Rightarrow>
        ya < yb \<or> (ya = yb \<and> (ma < mb \<or> (ma = mb \<and> da \<le> db))))"

definition anniversary :: "jsdate \<Rightarrow> int \<Rightarrow> int \<times> int \<times> int" where
  "anniversary b n = (getUTCFullYear b + n, getUTCMonth b, getUTCDate b)"

definition precedes_md :: "jsdate \<Rightarrow> jsdate \<Rightarrow> bool" where
  "precedes_md today b =
     (getUTCMonth today < getUTCMonth b
      \<or> (getUTCMonth today = getUTCMonth b \<and> getUTCDate today < getUTCDate b))"

definition elapsed_years :: "jsdate \<Rightarrow> jsdate \<Rightarrow> int" where
  "elapsed_years today b =
     getUTCFullYear today - getUTCFullYear b - (if precedes_md today b then 1 else 0)"

definition mk_date :: "int \<Rightarrow> int \<Rightarrow> int \<Rightarrow> int \<Rightarrow> jsdate" where
  "mk_date t y m d = \<lparr>getTime = t, getUTCFullYear = y, getUTCMonth = m, getUTCDate = d\<rparr>"

section \<open>Storage: the two tables and their constraints\<close>

text \<open>
  The migration creates \<^verbatim>\<open>person\<close> (primary key \<^verbatim>\<open>id\<close>, \<^verbatim>\<open>name\<close>, \<^verbatim>\<open>surname\<close> and
  \<^verbatim>\<open>email\<close> not null, \<^verbatim>\<open>gender in ('male','female')\<close>, \<^verbatim>\<open>email\<close> unique, both timestamps
  defaulting to \<^verbatim>\<open>now()\<close>) and \<^verbatim>\<open>person_contacts\<close> (primary key the pair, both columns
  referencing \<^verbatim>\<open>person(id)\<close> with cascading delete, \<^verbatim>\<open>person_id <> contact_id\<close>), and the
  trigger \<^verbatim>\<open>trg_person_updated\<close> that sets \<^verbatim>\<open>updated_at = now()\<close> before every update of a
  \<^verbatim>\<open>person\<close> row. The column \<^verbatim>\<open>age\<close> is never written or read by the code and is left out.
  A table is the list of its rows; an identifier is a number; \<^verbatim>\<open>now()\<close> is the time of the
  transaction, an argument of every statement that uses it.
\<close>

type_synonym uuid = nat

record person_row =
  p_id :: uuid
  p_name :: string
  p_surname :: string
  p_gender :: "string option"
  p_birthday :: "jsdate option"
  p_phone :: "string option"
  p_email :: string
  created_at :: jsdate
  updated_at :: jsdate

record db =
  person :: "person_row list"
  person_contacts :: "(uuid \<times> uuid) list"

text \<open>
  The storage errors by SQLSTATE: 23502, 23514, 23505, 23503, 2201W and 2201X, and those
  of a parameter that the store cannot read: 22021 (a text with the character U+0000),
  22008 (a date outside the calendar of the store), 22003 (an integer outside the type)
  and 22P02 (a text that is no integer).
\<close>

datatype pg_error =
    Not_null_violation
  | Check_violation
  | Unique_violation
  | Foreign_key_violation
  | Invalid_limit
  | Invalid_offset
  | Character_not_in_repertoire
  | Datetime_field_overflow
  | Numeric_value_out_of_range
  | Invalid_text_representation

text \<open>The six parameters of the insert, and the columns an update may set.\<close>

record person_values =
  v_name :: "string option"
  v_surname :: "string option"
  v_gender :: "string option"
  v_birthday :: "jsdate option"
  v_phone :: "string option"
  v_email :: "string option"

datatype assignment =
    Set_name "string option"
  | Set_surname "string option"
  | Set_gender "string option"
  | Set_birthday "jsdate option"
  | Set_phone "string option"
  | Set_email "string option"

fun assign :: "assignment \<Rightarrow> person_values \<Rightarrow> person_values" where
  "assign (Set_name x) v = v\<lparr>v_name := x\<rparr>"
| "assign (Set_surname x) v = v\<lparr>v_surname := x\<rparr>"
| "assign (Set_gender x) v = v\<lparr>v_gender := x\<rparr>"
| "assign (Set_birthday x) v = v\<lparr>v_birthday := x\<rparr>"
| "assign (Set_phone x) v = v\<lparr>v_phone := x\<rparr>"
| "assign (Set_email x) v = v\<lparr>v_email := x\<rparr>"

definition values_of :: "person_row \<Rightarrow> person_values" where
  "values_of r =
     \<lparr>v_name = Some (p_name r), v_surname = Some (p_surname r), v_gender = p_gender r,
      v_birthday = p_birthday r, v_phone = p_phone r, v_email = Some (p_email r)\<rparr>"

text \<open>
  The parameters of a statement are read in their order before the statement runs: a
  text parameter must not contain U+0000, and a date must have a year from 1 on (the
  year 0000 passes \<^verbatim>\<open>format: date\<close> and is no year of the store).
\<close>

definition has_nul :: "string option \<Rightarrow> bool" where
  "has_nul t = (case t of None \<Rightarrow> False | Some s \<Rightarrow> CHR 0x00 \<in> set s)"

definition read_text :: "string option \<Rightarrow> pg_error option" where
  "read_text t = (if has_nul t then Some Character_not_in_repertoire else None)"

fun bind_param :: "assignment \<Rightarrow> pg_error option" where
  "bind_param (Set_name x) = read_text x"
| "bind_param (Set_surname x) = read_text x"
| "bind_param (Set_gender x) = read_text x"
| "bind_param (Set_birthday x) =
     (case x of
        None \<Rightarrow> None
      | Some b \<Rightarrow> if getUTCFullYear b < 1 then Some Datetime_field_overflow else None)"
| "bind_param (Set_phone x) = read_text x"
| "bind_param (Set_email x) = read_text x"

fun bind_params :: "assignment list \<Rightarrow> pg_error option" where
  "bind_params [] = None"
| "bind_params (a # rest) =
     (case bind_param a of Some e \<Rightarrow> Some e | None \<Rightarrow> bind_params rest)"

definition insert_values :: "person_values \<Rightarrow> assignment list" where
  "insert_values v =
     [Set_name (v_name v), Set_surname (v_surname v), Set_gender (v_gender v),
      Set_birthday (v_birthday v), Set_phone (v_phone v), Set_email (v_email v)]"

text \<open>
  An integer parameter of type \<^verbatim>\<open>bigint\<close>: the driver sends \<^verbatim>\<open>String(n)\<close>, and the store
  reads the digits.
\<close>

definition bind_bigint :: "env \<Rightarrow> int \<Rightarrow> pg_error + int" where
  "bind_bigint E n =
     (if 1000000000000000000000 \<le> \<bar>n\<bar> then Inl Invalid_text_representation
      else if digits_of E n < - 9223372036854775808 \<or> 9223372036854775807 < digits_of E n
      then Inl Numeric_value_out_of_range
      else Inr (digits_of E n))"

text \<open>
  A candidate row against the rows it must not collide with: the not-null
  constraints first, then the check constraint, then the unique indexes (primary key,
  then email), which is the order in which the store reports them.
\<close>

definition make_row ::
  "person_row list \<Rightarrow> uuid \<Rightarrow> jsdate \<Rightarrow> jsdate \<Rightarrow> person_values \<Rightarrow> pg_error + person_row" where
  "make_row others i created updated v =
     (case (v_name v, v_surname v, v_email v) of
        (Some n, Some s, Some e) \<Rightarrow>
          if v_gender v \<noteq> None \<and> v_gender v \<noteq> Some ''male'' \<and> v_gender v \<noteq> Some ''female''
          then Inl Check_violation
          else if i \<in> set (map p_id others) then Inl Unique_violation
          else if e \<in> set (map p_email others) then Inl Unique_violation
          else Inr \<lparr>p_id = i, p_name = n, p_surname = s, p_gender = v_gender v,
                    p_birthday = v_birthday v, p_phone = v_phone v, p_email = e,
                    created_at = created, updated_at = updated\<rparr>
      | _ \<Rightarrow> Inl Not_null_violation)"

text \<open>
  \<^verbatim>\<open>insert into person (name,surname,gender,birthday,phone,email) values (...) returning *\<close>;
  \<open>new_id\<close> is the value \<^verbatim>\<open>uuid_generate_v4()\<close> draws.
\<close>

definition sql_insert_person ::
  "db \<Rightarrow> jsdate \<Rightarrow> uuid \<Rightarrow> person_values \<Rightarrow> pg_error + (person_row \<times> db)" where
  "sql_insert_person d now new_id v =
     (case bind_params (insert_values v) of
        Some e \<Rightarrow> Inl e
      | None \<Rightarrow>
          (case make_row (person d) new_id now now v of
             Inl e \<Rightarrow> Inl e
           | Inr p \<Rightarrow> Inr (p, d\<lparr>person := person d @ [p]\<rparr>)))"

text \<open>\<^verbatim>\<open>select * from person where id=$1\<close>\<close>

definition sql_person_by_id :: "db \<Rightarrow> uuid \<Rightarrow> person_row list" where
  "sql_person_by_id d i = filter (\<lambda>r. p_id r = i) (person d)"

text \<open>\<^verbatim>\<open>select id from person where id = any($1::uuid[])\<close>\<close>

definition sql_existing_ids :: "db \<Rightarrow> uuid list \<Rightarrow> uuid list" where
  "sql_existing_ids d ids = map p_id (filter (\<lambda>r. p_id r \<in> set ids) (person d))"

text \<open>
  \<^verbatim>\<open>update person set <assignments>, updated_at=now() where id=$n\<close>, with the trigger.
  The statement changes nothing when no row has the id.
\<close>

definition sql_update_person :: "db \<Rightarrow> jsdate \<Rightarrow> assignment list \<Rightarrow> uuid \<Rightarrow> pg_error + db" where
  "sql_update_person d now sets i =
     (case bind_params sets of
        Some e \<Rightarrow> Inl e
      | None \<Rightarrow>
          (case filter (\<lambda>r. p_id r = i) (person d) of
             [] \<Rightarrow> Inr d
           | old # _ \<Rightarrow>
               (case make_row (filter (\<lambda>r. p_id r \<noteq> i) (person d)) i (created_at old) now
                       (fold assign sets (values_of old)) of
                  Inl e \<Rightarrow> Inl e
                | Inr new \<Rightarrow>
                    Inr (d\<lparr>person :=
                           map (\<lambda>r. if p_id r = i then new else r) (person d)\<rparr>))))"

text \<open>
  \<^verbatim>\<open>insert into person_contacts (person_id, contact_id) select $1, unnest($2::uuid[])\<close>.
  Row by row the check constraint and the primary key are tested; the foreign keys are
  tested when all rows are in. A statement that fails leaves the table as it was.
\<close>

fun insert_links :: "(uuid \<times> uuid) list \<Rightarrow> (uuid \<times> uuid) list \<Rightarrow> pg_error + (uuid \<times> uuid) list" where
  "insert_links tbl [] = Inr tbl"
| "insert_links tbl ((p, c) # rest) =
     (if p = c then Inl Check_violation
      else if (p, c) \<in> set tbl then Inl Unique_violation
      else insert_links (tbl @ [(p, c)]) rest)"

definition sql_insert_contacts :: "db \<Rightarrow> uuid \<Rightarrow> uuid list \<Rightarrow> pg_error + db" where
  "sql_insert_contacts d i cs =
     (case insert_links (person_contacts d) (map (Pair i) cs) of
        Inl e \<Rightarrow> Inl e
      | Inr tbl \<Rightarrow>
          if cs \<noteq> [] \<and> \<not> (i \<in> set (map p_id (person d)) \<and> set cs \<subseteq> set (map p_id (person d)))
          then Inl Foreign_key_violation
          else Inr (d\<lparr>person_contacts := tbl\<rparr>))"

text \<open>\<^verbatim>\<open>delete from person_contacts where person_id=$1\<close>\<close>

definition sql_delete_contacts :: "db \<Rightarrow> uuid \<Rightarrow> db" where
  "sql_delete_contacts d i = d\<lparr>person_contacts := filter (\<lambda>l. fst l \<noteq> i) (person_contacts d)\<rparr>"

text \<open>
  \<^verbatim>\<open>delete from person where id=$1\<close>, with the cascade on both columns of the link
  table; the first component is \<^verbatim>\<open>rowCount\<close>.
\<close>

definition sql_delete_person :: "db \<Rightarrow> uuid \<Rightarrow> nat \<times> db" where
  "sql_delete_person d i =
     (let n = length (filter (\<lambda>r. p_id r = i) (person d))
      in if n = 0 then (0, d)
         else (n, \<lparr>person = filter (\<lambda>r. p_id r \<noteq> i) (person d),
                   person_contacts = filter (\<lambda>l. fst l \<noteq> i \<and> snd l \<noteq> i) (person_contacts d)\<rparr>))"

text \<open>
  The contact query: \<^verbatim>\<open>select c.id, c.name, c.surname, c.email from person_contacts pc
  join person c on c.id = pc.contact_id where pc.person_id = $1 order by c.email asc\<close>,
  in the order of the store on \<^verbatim>\<open>text\<close>.
\<close>

record contact_row =
  c_id :: uuid
  c_name :: string
  c_surname :: string
  c_email :: string

definition summary :: "person_row \<Rightarrow> contact_row" where
  "summary r = \<lparr>c_id = p_id r, c_name = p_name r, c_surname = p_surname r, c_email = p_email r\<rparr>"

definition contactsOf :: "env \<Rightarrow> db \<Rightarrow> uuid \<Rightarrow> contact_row list" where
  "contactsOf E d i =
     sort_key (\<lambda>c. text_key E (c_email c))
       (concat (map (\<lambda>l. if fst l = i
                          then map summary (filter (\<lambda>r. p_id r = snd l) (person d))
                          else [])
                    (person_contacts d)))"

text \<open>
  \<^verbatim>\<open>select * from person order by email asc limit $1 offset $2\<close>: the two numbers are
  read as \<^verbatim>\<open>bigint\<close> parameters, the rows are in the order of the store on \<^verbatim>\<open>text\<close>, and
  a negative \<^verbatim>\<open>offset\<close> or \<^verbatim>\<open>limit\<close> is an error of the statement.
\<close>

definition sql_page :: "env \<Rightarrow> db \<Rightarrow> int \<Rightarrow> int \<Rightarrow> pg_error + person_row list" where
  "sql_page E d limit offset =
     (case bind_bigint E limit of
        Inl e \<Rightarrow> Inl e
      | Inr l \<Rightarrow>
          (case bind_bigint E offset of
             Inl e \<Rightarrow> Inl e
           | Inr off \<Rightarrow>
               if off < 0 then Inl Invalid_offset
               else if l < 0 then Inl Invalid_limit
               else Inr (take (nat l)
                          (drop (nat off) (sort_key (\<lambda>r. text_key E (p_email r)) (person d))))))"

text \<open>
  \<^verbatim>\<open>select count(*)::int as count, max(updated_at) as maxu from person\<close>; the cast of the
  count to \<^verbatim>\<open>int\<close> fails beyond 32 bits, and the maximum is given in the milliseconds
  that \<^verbatim>\<open>new Date(maxu).getTime()\<close> reads, and is null for the empty table.
\<close>

definition sql_count :: "db \<Rightarrow> pg_error + int" where
  "sql_count d =
     (if 2147483647 < int (length (person d)) then Inl Numeric_value_out_of_range
      else Inr (int (length (person d))))"

definition sql_maxu :: "db \<Rightarrow> int option" where
  "sql_maxu d =
     (case person d of
        [] \<Rightarrow> None
      | r # rs \<Rightarrow> Some (fold (\<lambda>x m. max (getTime (updated_at x)) m) rs (getTime (updated_at r))))"

section \<open>Requests, results and errors\<close>

text \<open>
  The body of a create or update request (\<^verbatim>\<open>req.body\<close>, the \<^verbatim>\<open>input\<close> argument), as
  the client sends it. Two properties are typed rather than text: a birthday stands
  for a string \<^verbatim>\<open>YYYY-MM-DD\<close> that names a calendar day (what \<^verbatim>\<open>format: date\<close> admits) and is
  given as the date the driver reads back from the \<^verbatim>\<open>date\<close> column, and an identifier
  stands for a well-formed UUID (\<^verbatim>\<open>format: uuid\<close>). Strings that are no such day or
  identifier are outside the model.
\<close>

record person_input =
  in_name :: "string field"
  in_surname :: "string field"
  in_gender :: "string field"
  in_birthday :: "jsdate field"
  in_phone :: "string field"
  in_email :: "string field"
  in_contacts :: "uuid list field"

text \<open>
  What a handler can throw: the 400 of schema validation, the three
  \<^verbatim>\<open>fastify.httpErrors\<close> used by the routes, a storage error passed through, and a plain
  \<^verbatim>\<open>Error\<close> (also the \<^verbatim>\<open>TypeError\<close> of reading a field of \<^verbatim>\<open>undefined\<close>).
\<close>

datatype error =
    Validation
  | BadRequest string
  | NotFound
  | Conflict string
  | Pg pg_error
  | JsError string

text \<open>
  The response objects. An ISO string is represented by what it prints: the instant for
  \<^verbatim>\<open>toISOString()\<close>, and year, month (from 1) and day for \<^verbatim>\<open>toISOString().slice(0, 10)\<close>.
  A list item of the resource-style surface has no \<^verbatim>\<open>contacts\<close> key; a person object
  has one.
\<close>

record person_item =
  dto_id :: uuid
  dto_name :: string
  dto_surname :: string
  dto_age :: "int option"
  dto_gender :: "string option"
  dto_birthday :: "(int \<times> int \<times> int) option"
  dto_phone :: "string option"
  dto_email :: string
  dto_created :: int
  dto_modified :: int

record person_dto = person_item +
  dto_contacts :: "contact_row list"

definition iso_day :: "jsdate \<Rightarrow> int \<times> int \<times> int" where
  "iso_day d = (getUTCFullYear d, getUTCMonth d + 1, getUTCDate d)"

text \<open>The object literal that \<^verbatim>\<open>GET /people\<close> builds for each row of the page.\<close>

definition to_item :: "jsdate \<Rightarrow> person_row \<Rightarrow> person_item" where
  "to_item clock r =
     (let birthdayDate = p_birthday r
      in \<lparr>dto_id = p_id r, dto_name = p_name r, dto_surname = p_surname r,
          dto_age = computeAge clock birthdayDate, dto_gender = p_gender r,
          dto_birthday = map_option iso_day birthdayDate, dto_phone = p_phone r,
          dto_email = p_email r, dto_created = getTime (created_at r),
          dto_modified = getTime (updated_at r)\<rparr>)"

text \<open>\<^verbatim>\<open>toDTO\<close> of the routes file: the contacts are copied field by field.\<close>

definition rest_toDTO :: "jsdate \<Rightarrow> person_row \<Rightarrow> contact_row list \<Rightarrow> person_dto" where
  "rest_toDTO clock row contacts =
     (let birthdayDate = p_birthday row
      in \<lparr>dto_id = p_id row, dto_name = p_name row, dto_surname = p_surname row,
          dto_age = computeAge clock birthdayDate, dto_gender = p_gender row,
          dto_birthday = map_option iso_day birthdayDate, dto_phone = p_phone row,
          dto_email = p_email row, dto_created = getTime (created_at row),
          dto_modified = getTime (updated_at row),
          dto_contacts = map (\<lambda>c. \<lparr>c_id = c_id c, c_name = c_name c, c_surname = c_surname c,
                                    c_email = c_email c\<rparr>) contacts\<rparr>)"

text \<open>\<^verbatim>\<open>toDTO\<close> of the resolvers: the contact rows are passed on as they are.\<close>

definition gql_toDTO :: "jsdate \<Rightarrow> person_row \<Rightarrow> contact_row list \<Rightarrow> person_dto" where
  "gql_toDTO clock r contacts =
     (let birthdayDate = p_birthday r
      in \<lparr>dto_id = p_id r, dto_name = p_name r, dto_surname = p_surname r,
          dto_age = computeAge clock birthdayDate, dto_gender = p_gender r,
          dto_birthday = map_option iso_day birthdayDate, dto_phone = p_phone r,
          dto_email = p_email r, dto_created = getTime (created_at r),
          dto_modified = getTime (updated_at r), dto_contacts = contacts\<rparr>)"

text \<open>A conditional read answers 304 without a body, or 200 with the body and its tag.\<close>

datatype 'a reply = Not_modified | Body 'a string

section \<open>The schema of the resource-style surface\<close>

text \<open>
  \<^verbatim>\<open>personSchema\<close> as the validator applies it. The validator runs with type coercion
  (the default of the server), and what it coerces is what the handler reads:
  \<^item> under \<^verbatim>\<open>type: string\<close> a null becomes the empty string, which then has to meet
    \<^verbatim>\<open>minLength\<close> and \<^verbatim>\<open>format\<close> like any string (\<^verbatim>\<open>name\<close>, \<^verbatim>\<open>surname\<close>, \<^verbatim>\<open>email\<close>);
  \<^item> \<^verbatim>\<open>phone\<close> (a string or null): the string branch comes first, so null becomes the
    empty string;
  \<^item> \<^verbatim>\<open>gender\<close> (\<^verbatim>\<open>male\<close>, \<^verbatim>\<open>female\<close> or null): an empty string fails the enumeration and
    is coerced to null by the second branch; any other string is refused;
  \<^item> \<^verbatim>\<open>contacts\<close> is null or an array without repetitions.
  The result is the coerced body, or nothing when the body is refused (400). The
  argument \<open>required\<close> says whether \<^verbatim>\<open>name\<close>, \<^verbatim>\<open>surname\<close> and \<^verbatim>\<open>email\<close> are required
  (POST) or not (PATCH, \<^verbatim>\<open>required: []\<close>).
\<close>

fun schema_string :: "(string \<Rightarrow> bool) \<Rightarrow> nat \<Rightarrow> bool \<Rightarrow> string field \<Rightarrow> string field option" where
  "schema_string format minLength required Absent = (if required then None else Some Absent)"
| "schema_string format minLength required Null =
     (if minLength \<le> 0 \<and> format [] then Some (Val []) else None)"
| "schema_string format minLength required (Val s) =
     (if minLength \<le> length s \<and> format s then Some (Val s) else None)"

fun schema_gender :: "string field \<Rightarrow> string field option" where
  "schema_gender Absent = Some Absent"
| "schema_gender Null = Some Null"
| "schema_gender (Val s) =
     (if s = ''male'' \<or> s = ''female'' then Some (Val s)
      else if s = [] then Some Null
      else None)"

fun schema_phone :: "string field \<Rightarrow> string field" where
  "schema_phone Absent = Absent"
| "schema_phone Null = Val []"
| "schema_phone (Val s) = Val s"

fun schema_contacts :: "uuid list field \<Rightarrow> uuid list field option" where
  "schema_contacts (Val cs) = (if distinct cs then Some (Val cs) else None)"
| "schema_contacts Null = Some Null"
| "schema_contacts Absent = Some Absent"

definition personSchema :: "env \<Rightarrow> bool \<Rightarrow> person_input \<Rightarrow> person_input option" where
  "personSchema E required b =
     (case (schema_string (\<lambda>s. True) 1 required (in_name b),
            schema_string (\<lambda>s. True) 1 required (in_surname b),
            schema_gender (in_gender b),
            schema_string (email_format E) 0 required (in_email b),
            schema_contacts (in_contacts b)) of
        (Some n, Some s, Some g, Some e, Some c) \<Rightarrow>
          Some \<lparr>in_name = n, in_surname = s, in_gender = g, in_birthday = in_birthday b,
                in_phone = schema_phone (in_phone b), in_email = e, in_contacts = c\<rparr>
      | _ \<Rightarrow> None)"

text \<open>
  The query string of the list: \<^verbatim>\<open>limit\<close> an integer from 1 to 100, \<^verbatim>\<open>offset\<close> an
  integer from 0, with no maximum.
\<close>

definition querySchema :: "int option \<Rightarrow> int option \<Rightarrow> bool" where
  "querySchema limit offset \<longleftrightarrow>
     (case limit of None \<Rightarrow> True | Some l \<Rightarrow> 1 \<le> l \<and> l \<le> 100)
     \<and> (case offset of None \<Rightarrow> True | Some off \<Rightarrow> 0 \<le> off)"

section \<open>The handlers of the resource-style surface\<close>

text \<open>The six insert parameters: \<^verbatim>\<open>b.name\<close>, \<^verbatim>\<open>b.gender ?? null\<close> and so on.\<close>

definition insert_params :: "person_input \<Rightarrow> person_values" where
  "insert_params b =
     \<lparr>v_name = nullish (in_name b), v_surname = nullish (in_surname b),
      v_gender = nullish (in_gender b), v_birthday = nullish (in_birthday b),
      v_phone = nullish (in_phone b), v_email = nullish (in_email b)\<rparr>"

text \<open>The elements of \<^verbatim>\<open>b.contacts\<close> when it is an array, and none otherwise.\<close>

fun items :: "uuid list field \<Rightarrow> uuid list" where
  "items (Val cs) = cs"
| "items _ = []"

text \<open>
  The loop over \<^verbatim>\<open>fields\<close> that builds \<^verbatim>\<open>updates\<close> and \<^verbatim>\<open>values\<close>: one assignment
  for each key of the body, in the order of the array.
\<close>

definition set_clause :: "person_input \<Rightarrow> assignment list" where
  "set_clause b =
     (if present (in_name b) then [Set_name (nullish (in_name b))] else [])
     @ (if present (in_surname b) then [Set_surname (nullish (in_surname b))] else [])
     @ (if present (in_gender b) then [Set_gender (nullish (in_gender b))] else [])
     @ (if present (in_birthday b) then [Set_birthday (nullish (in_birthday b))] else [])
     @ (if present (in_phone b) then [Set_phone (nullish (in_phone b))] else [])
     @ (if present (in_email b) then [Set_email (nullish (in_email b))] else [])"

text \<open>
  The \<^verbatim>\<open>catch\<close> of both transactions, after the rollback: code 23505 becomes the
  conflict, every other error is thrown again.
\<close>

definition on_catch :: "error \<Rightarrow> error" where
  "on_catch e = (if e = Pg Unique_violation then Conflict ''Email already exists'' else e)"

definition lift_pg :: "pg_error + 'a \<Rightarrow> error + 'a" where
  "lift_pg r = (case r of Inl e \<Rightarrow> Inl (Pg e) | Inr x \<Rightarrow> Inr x)"

text \<open>
  The check and the insert of the contact list, the same text in POST and PATCH:
  the number of rows found must be the length of the list.
\<close>

definition attach_contacts :: "db \<Rightarrow> uuid \<Rightarrow> uuid list \<Rightarrow> error + db" where
  "attach_contacts d i cs =
     (if length (sql_existing_ids d cs) \<noteq> length cs
      then Inl (BadRequest ''One or more contact IDs do not exist'')
      else lift_pg (sql_insert_contacts d i cs))"

text \<open>\<^verbatim>\<open>POST /people\<close>: the \<^verbatim>\<open>try\<close> block, from \<^verbatim>\<open>begin\<close> to \<^verbatim>\<open>commit\<close>.\<close>

definition post_people_try ::
  "env \<Rightarrow> db \<Rightarrow> jsdate \<Rightarrow> jsdate \<Rightarrow> uuid \<Rightarrow> person_input \<Rightarrow> error + (person_dto \<times> db)" where
  "post_people_try E d now clock new_id b =
     (case lift_pg (sql_insert_person d now new_id (insert_params b)) of
        Inl e \<Rightarrow> Inl e
      | Inr (p, d1) \<Rightarrow>
          (case (if items (in_contacts b) \<noteq> []
                 then attach_contacts d1 (p_id p) (items (in_contacts b))
                 else Inr d1) of
             Inl e \<Rightarrow> Inl e
           | Inr d2 \<Rightarrow> Inr (rest_toDTO clock p (contactsOf E d2 (p_id p)), d2)))"

text \<open>
  The handler: the validator, then the transaction on the body as the validator
  leaves it. The second component is the storage afterwards: the committed state, or
  the state before on a rollback.
\<close>

definition post_people ::
  "env \<Rightarrow> db \<Rightarrow> jsdate \<Rightarrow> jsdate \<Rightarrow> uuid \<Rightarrow> person_input \<Rightarrow> (error + person_dto) \<times> db" where
  "post_people E d now clock new_id body =
     (case personSchema E True body of
        None \<Rightarrow> (Inl Validation, d)
      | Some b \<Rightarrow>
          (case post_people_try E d now clock new_id b of
             Inl e \<Rightarrow> (Inl (on_catch e), d)
           | Inr (dto, d') \<Rightarrow> (Inr dto, d')))"

text \<open>\<^verbatim>\<open>GET /people/:id\<close> with the request's \<^verbatim>\<open>If-None-Match\<close> header.\<close>

definition item_etag :: "person_row \<Rightarrow> string" where
  "item_etag r = ''\"'' @ show_int (getTime (updated_at r)) @ ''\"''"

definition get_person ::
  "env \<Rightarrow> db \<Rightarrow> jsdate \<Rightarrow> uuid \<Rightarrow> string option \<Rightarrow> error + person_dto reply" where
  "get_person E d clock i if_none_match =
     (case sql_person_by_id d i of
        [] \<Rightarrow> Inl NotFound
      | p # _ \<Rightarrow>
          (let dto = rest_toDTO clock p (contactsOf E d i);
               etag = item_etag p
           in if if_none_match = Some etag then Inr Not_modified else Inr (Body dto etag)))"

text \<open>\<^verbatim>\<open>PATCH /people/:id\<close>: the \<^verbatim>\<open>try\<close> block.\<close>

definition replace_contacts :: "db \<Rightarrow> uuid \<Rightarrow> person_input \<Rightarrow> error + db" where
  "replace_contacts d i b =
     (if present (in_contacts b)
      then (let d2 = sql_delete_contacts d i
            in if items (in_contacts b) \<noteq> []
               then attach_contacts d2 i (items (in_contacts b))
               else Inr d2)
      else Inr d)"

definition patch_person_try ::
  "env \<Rightarrow> db \<Rightarrow> jsdate \<Rightarrow> jsdate \<Rightarrow> uuid \<Rightarrow> person_input \<Rightarrow> error + (person_dto \<times> db)" where
  "patch_person_try E d now clock i b =
     (case sql_person_by_id d i of
        [] \<Rightarrow> Inl NotFound
      | _ # _ \<Rightarrow>
          (case (if set_clause b \<noteq> []
                 then lift_pg (sql_update_person d now (set_clause b) i)
                 else Inr d) of
             Inl e \<Rightarrow> Inl e
           | Inr d1 \<Rightarrow>
               (case replace_contacts d1 i b of
                  Inl e \<Rightarrow> Inl e
                | Inr d3 \<Rightarrow>
                    (case sql_person_by_id d3 i of
                       [] \<Rightarrow> Inl (JsError ''TypeError'')
                     | p # _ \<Rightarrow> Inr (rest_toDTO clock p (contactsOf E d3 i), d3)))))"

definition patch_person ::
  "env \<Rightarrow> db \<Rightarrow> jsdate \<Rightarrow> jsdate \<Rightarrow> uuid \<Rightarrow> person_input \<Rightarrow> (error + person_dto) \<times> db" where
  "patch_person E d now clock i body =
     (case personSchema E False body of
        None \<Rightarrow> (Inl Validation, d)
      | Some b \<Rightarrow>
          (case patch_person_try E d now clock i b of
             Inl e \<Rightarrow> (Inl (on_catch e), d)
           | Inr (dto, d') \<Rightarrow> (Inr dto, d')))"

text \<open>\<^verbatim>\<open>DELETE /people/:id\<close>: 204, or 404 when no row was deleted.\<close>

definition delete_person :: "db \<Rightarrow> uuid \<Rightarrow> (error + unit) \<times> db" where
  "delete_person d i =
     (case sql_delete_person d i of
        (n, d') \<Rightarrow> if n = 0 then (Inl NotFound, d') else (Inr (), d'))"

text \<open>\<^verbatim>\<open>GET /people\<close>: the page, the count and the tag of the page.\<close>

record people_page =
  total :: int
  limit :: int
  offset :: int

record rest_page = people_page +
  rest_items :: "person_item list"

record gql_page = people_page +
  gql_items :: "person_dto list"

text \<open>
  The tag of a page: the template literal prints each number with \<^verbatim>\<open>String\<close>.
\<close>

definition list_etag :: "env \<Rightarrow> int \<Rightarrow> int \<Rightarrow> int \<Rightarrow> int \<Rightarrow> string" where
  "list_etag E l off tot maxu =
     ''\"list-'' @ show_int (digits_of E l) @ ''-'' @ show_int (digits_of E off) @ ''-''
       @ show_int (digits_of E tot) @ ''-'' @ show_int (digits_of E maxu) @ ''\"''"

text \<open>
  The two numbers of the query are the JavaScript numbers that the validator leaves in
  \<^verbatim>\<open>req.query\<close>.
\<close>

definition get_people ::
  "env \<Rightarrow> db \<Rightarrow> jsdate \<Rightarrow> int option \<Rightarrow> int option \<Rightarrow> string option \<Rightarrow> error + rest_page reply" where
  "get_people E d clock q_limit q_offset if_none_match =
     (if \<not> querySchema q_limit q_offset then Inl Validation
      else
        (let lim = (case q_limit of None \<Rightarrow> 20 | Some l \<Rightarrow> l);
             off = (case q_offset of None \<Rightarrow> 0 | Some x \<Rightarrow> x)
         in case lift_pg (sql_page E d lim off) of
              Inl e \<Rightarrow> Inl e
            | Inr page \<Rightarrow>
                (case lift_pg (sql_count d) of
                   Inl e \<Rightarrow> Inl e
                 | Inr tot \<Rightarrow>
                     (let maxu = (case sql_maxu d of None \<Rightarrow> 0 | Some t \<Rightarrow> t);
                          etag = list_etag E lim off tot maxu
                      in if if_none_match = Some etag then Inr Not_modified
                         else Inr (Body \<lparr>total = tot, limit = lim, offset = off,
                                          rest_items = map (to_item clock) page\<rparr> etag)))))"

section \<open>The resolvers of the typed-query surface\<close>

text \<open>
  Every statement goes through \<^verbatim>\<open>db.query\<close> on the pool, outside any transaction: a
  statement that succeeds is committed when the next one starts. The second component
  of a mutation's result is the storage the resolver leaves behind.
\<close>

definition gql_person :: "env \<Rightarrow> db \<Rightarrow> jsdate \<Rightarrow> uuid \<Rightarrow> person_dto option" where
  "gql_person E d clock i =
     (case sql_person_by_id d i of
        [] \<Rightarrow> None
      | p # _ \<Rightarrow> Some (gql_toDTO clock p (contactsOf E d i)))"

text \<open>
  The arguments \<^verbatim>\<open>limit\<close> and \<^verbatim>\<open>offset\<close> have the type \<^verbatim>\<open>Int\<close> of the schema, a signed
  integer of 32 bits: a request with a number outside is refused before the resolver
  runs. Nothing else bounds them.
\<close>

definition gql_Int :: "int option \<Rightarrow> bool" where
  "gql_Int a \<longleftrightarrow> (case a of None \<Rightarrow> True | Some n \<Rightarrow> - 2147483648 \<le> n \<and> n \<le> 2147483647)"

definition gql_people :: "env \<Rightarrow> db \<Rightarrow> jsdate \<Rightarrow> int option \<Rightarrow> int option \<Rightarrow> error + gql_page" where
  "gql_people E d clock a_limit a_offset =
     (if \<not> (gql_Int a_limit \<and> gql_Int a_offset) then Inl Validation
      else
        (let lim = (case a_limit of None \<Rightarrow> 20 | Some l \<Rightarrow> l);
             off = (case a_offset of None \<Rightarrow> 0 | Some x \<Rightarrow> x)
         in case lift_pg (sql_page E d lim off) of
              Inl e \<Rightarrow> Inl e
            | Inr page \<Rightarrow>
                (case lift_pg (sql_count d) of
                   Inl e \<Rightarrow> Inl e
                 | Inr tot \<Rightarrow>
                     Inr \<lparr>total = tot, limit = lim, offset = off,
                          gql_items =
                            map (\<lambda>r. gql_toDTO clock r (contactsOf E d (p_id r))) page\<rparr>)))"

definition gql_createPerson ::
  "env \<Rightarrow> db \<Rightarrow> jsdate \<Rightarrow> jsdate \<Rightarrow> uuid \<Rightarrow> person_input \<Rightarrow> (error + person_dto) \<times> db" where
  "gql_createPerson E d now clock new_id input =
     (case sql_insert_person d now new_id (insert_params input) of
        Inl e \<Rightarrow> (Inl (Pg e), d)
      | Inr (p, d1) \<Rightarrow>
          (case (if items (in_contacts input) \<noteq> []
                 then sql_insert_contacts d1 (p_id p) (items (in_contacts input))
                 else Inr d1) of
             Inl e \<Rightarrow> (Inl (Pg e), d1)
           | Inr d2 \<Rightarrow> (Inr (gql_toDTO clock p (contactsOf E d2 (p_id p))), d2)))"

definition gql_select_person ::
  "env \<Rightarrow> db \<Rightarrow> jsdate \<Rightarrow> uuid \<Rightarrow> (error + person_dto) \<times> db" where
  "gql_select_person E d clock i =
     (case sql_person_by_id d i of
        [] \<Rightarrow> (Inl (JsError ''not found''), d)
      | p # _ \<Rightarrow> (Inr (gql_toDTO clock p (contactsOf E d i)), d))"

definition gql_updatePerson ::
  "env \<Rightarrow> db \<Rightarrow> jsdate \<Rightarrow> jsdate \<Rightarrow> uuid \<Rightarrow> person_input \<Rightarrow> (error + person_dto) \<times> db" where
  "gql_updatePerson E d now clock i input =
     (case (if set_clause input \<noteq> []
            then sql_update_person d now (set_clause input) i
            else Inr d) of
        Inl e \<Rightarrow> (Inl (Pg e), d)
      | Inr d1 \<Rightarrow>
          (if present (in_contacts input)
           then (let d2 = sql_delete_contacts d1 i
                 in if items (in_contacts input) \<noteq> []
                    then (case sql_insert_contacts d2 i (items (in_contacts input)) of
                            Inl e \<Rightarrow> (Inl (Pg e), d2)
                          | Inr d3 \<Rightarrow> gql_select_person E d3 clock i)
                    else gql_select_person E d2 clock i)
           else gql_select_person E d1 clock i))"

definition gql_deletePerson :: "db \<Rightarrow> uuid \<Rightarrow> bool \<times> db" where
  "gql_deletePerson d i = (case sql_delete_person d i of (n, d') \<Rightarrow> (n > 0, d'))"

section \<open>A small store for concrete runs\<close>

text \<open>
  A sample of what the libraries decide: an address is a string with an at sign, the
  collation compares character by character, and \<^verbatim>\<open>String\<close> prints
  \<open>2\<^sup>6\<^sup>3\<close> as 9223372036854776000.
\<close>

definition ex_env :: env where
  "ex_env =
     \<lparr>email_format = (\<lambda>s. CHR ''@'' \<in> set s),
      collation_key = (\<lambda>s. []),
      number_digits = (\<lambda>n. if n = 9223372036854775808 then 9223372036854776000 else n)\<rparr>"

definition ex_alice :: person_row where
  "ex_alice =
     \<lparr>p_id = 1, p_name = ''Alice'', p_surname = ''Anderson'', p_gender = Some ''female'',
      p_birthday = Some (mk_date 856051200000 1997 1 14), p_phone = Some ''+111'',
      p_email = ''alice@example.com'',
      created_at = mk_date 1700000000000 2023 10 14,
      updated_at = mk_date 1700000000000 2023 10 14\<rparr>"

definition ex_bob :: person_row where
  "ex_bob =
     \<lparr>p_id = 2, p_name = ''Bob'', p_surname = ''Brown'', p_gender = Some ''male'',
      p_birthday = None, p_phone = None, p_email = ''bob@example.com'',
      created_at = mk_date 1700000000000 2023 10 14,
      updated_at = mk_date 1700000000000 2023 10 14\<rparr>"

definition ex_db :: db where
  "ex_db = \<lparr>person = [ex_bob, ex_alice], person_contacts = []\<rparr>"

definition ex_clock :: jsdate where
  "ex_clock = mk_date 1762041600000 2025 10 2"

definition ex_now :: jsdate where
  "ex_now = mk_date 1762041600123 2025 10 2"

text \<open>A body with no key, and a body whose only key is \<^verbatim>\<open>contacts\<close>.\<close>

definition no_keys :: person_input where
  "no_keys =
     \<lparr>in_name = Absent, in_surname = Absent, in_gender = Absent, in_birthday = Absent,
      in_phone = Absent, in_email = Absent, in_contacts = Absent\<rparr>"

definition contacts_only :: "uuid list \<Rightarrow> person_input" where
  "contacts_only cs = no_keys\<lparr>in_contacts := Val cs\<rparr>"

definition ex_carol :: person_input where
  "ex_carol =
     \<lparr>in_name = Val ''Carol'', in_surname = Val ''Clark'', in_gender = Val ''female'',
      in_birthday = Null, in_phone = Absent, in_email = Val ''carol@example.com'',
      in_contacts = Absent\<rparr>"

definition ex_carol_row :: person_row where
  "ex_carol_row =
     \<lparr>p_id = 3, p_name = ''Carol'', p_surname = ''Clark'', p_gender = Some ''female'',
      p_birthday = None, p_phone = None, p_email = ''carol@example.com'',
      created_at = ex_now, updated_at = ex_now\<rparr>"



text \<open>The values of a create that the store can read as parameters.\<close>

definition storable :: "person_input \<Rightarrow> bool" where
  "storable b \<longleftrightarrow> bind_params (insert_values (insert_params b)) = None"

section \<open>The constraints of the schema, and the stores the handlers can produce\<close>

text \<open>
  The primary key and the unique email of \<^verbatim>\<open>person\<close>, and the primary key, the check
  and the two foreign keys of \<^verbatim>\<open>person_contacts\<close>.
\<close>

definition schema_ok :: "db \<Rightarrow> bool" where
  "schema_ok d \<longleftrightarrow>
     distinct (map p_id (person d))
     \<and> distinct (map p_email (person d))
     \<and> distinct (person_contacts d)
     \<and> (\<forall>l \<in> set (person_contacts d).
           fst l \<noteq> snd l
           \<and> fst l \<in> set (map p_id (person d)) \<and> snd l \<in> set (map p_id (person d)))"

text \<open>
  The stores reached from the empty one by requests to the handlers and resolvers,
  whatever their arguments and the environment, and whether they succeed or fail.
\<close>

inductive reachable :: "db \<Rightarrow> bool" where
  empty: "reachable \<lparr>person = [], person_contacts = []\<rparr>"
| post: "reachable d \<Longrightarrow> reachable (snd (post_people E d now clock new_id b))"
| patch: "reachable d \<Longrightarrow> reachable (snd (patch_person E d now clock i b))"
| delete: "reachable d \<Longrightarrow> reachable (snd (delete_person d i))"
| createPerson: "reachable d \<Longrightarrow> reachable (snd (gql_createPerson E d now clock new_id b))"
| updatePerson: "reachable d \<Longrightarrow> reachable (snd (gql_updatePerson E d now clock i b))"
| deletePerson: "reachable d \<Longrightarrow> reachable (snd (gql_deletePerson d i))"

section \<open>Statements about a partial update\<close>

text \<open>
  The frame of a partial update, in the specification's words: every scalar column
  whose key is absent from the body has the value it had.
\<close>

definition keeps_absent_fields :: "person_input \<Rightarrow> person_row \<Rightarrow> person_row \<Rightarrow> bool" where
  "keeps_absent_fields b old new \<longleftrightarrow>
     (\<not> present (in_name b) \<longrightarrow> p_name new = p_name old)
     \<and> (\<not> present (in_surname b) \<longrightarrow> p_surname new = p_surname old)
     \<and> (\<not> present (in_gender b) \<longrightarrow> p_gender new = p_gender old)
     \<and> (\<not> present (in_birthday b) \<longrightarrow> p_birthday new = p_birthday old)
     \<and> (\<not> present (in_phone b) \<longrightarrow> p_phone new = p_phone old)
     \<and> (\<not> present (in_email b) \<longrightarrow> p_email new = p_email old)"

text \<open>Two bodies with the same keys.\<close>

definition same_keys :: "person_input \<Rightarrow> person_input \<Rightarrow> bool" where
  "same_keys a b \<longleftrightarrow>
     present (in_name a) = present (in_name b)
     \<and> present (in_surname a) = present (in_surname b)
     \<and> present (in_gender a) = present (in_gender b)
     \<and> present (in_birthday a) = present (in_birthday b)
     \<and> present (in_phone a) = present (in_phone b)
     \<and> present (in_email a) = present (in_email b)
     \<and> present (in_contacts a) = present (in_contacts b)"

section \<open>Properties of the derived age\<close>

lemma elapsed_years_anniversary:
  "day_le (anniversary b n) (ymd today) \<longleftrightarrow> n \<le> elapsed_years today b"
  by (auto simp: day_le_def anniversary_def ymd_def elapsed_years_def precedes_md_def)

lemma computeAge_Some:
  "computeAge today (Some b) =
     (if 0 \<le> elapsed_years today b \<and> elapsed_years today b \<le> 150
      then Some (elapsed_years today b) else None)"
  by (auto simp: computeAge_def elapsed_years_def precedes_md_def Let_def)

text \<open>
  C4. \<open>computeAge\<close> is absent for an absent birthday; for a birthday \<open>b\<close> it is the
  whole elapsed years between \<open>b\<close> and today (the years' difference, less one when
  today's month/day precedes the birthday's; equivalently the number \<open>n\<close> of
  anniversaries of \<open>b\<close> that are not after today), and it is absent whenever that
  number lies outside [0,150].
\<close>

theorem C4_computeAge_whole_years:
  "computeAge today None = None
   \<and> computeAge today (Some b) =
       (if 0 \<le> elapsed_years today b \<and> elapsed_years today b \<le> 150
        then Some (elapsed_years today b) else None)
   \<and> elapsed_years today b =
       getUTCFullYear today - getUTCFullYear b - (if precedes_md today b then 1 else 0)
   \<and> (\<forall>n. day_le (anniversary b n) (ymd today) \<longleftrightarrow> n \<le> elapsed_years today b)
   \<and> ((elapsed_years today b < 0 \<or> 150 < elapsed_years today b)
        \<longrightarrow> computeAge today (Some b) = None)"
proof -
  have "computeAge today None = None"
    by (simp add: computeAge_def)
  moreover have "elapsed_years today b =
       getUTCFullYear today - getUTCFullYear b - (if precedes_md today b then 1 else 0)"
    by (simp add: elapsed_years_def)
  moreover have "(elapsed_years today b < 0 \<or> 150 < elapsed_years today b)
        \<longrightarrow> computeAge today (Some b) = None"
    by (simp add: computeAge_Some)
  ultimately show ?thesis
    using computeAge_Some [of today b] elapsed_years_anniversary [of b _ today]
    by blast
qed

theorem C4_computeAge_witness:
  "computeAge (mk_date 1762041600000 2025 10 2) (Some (mk_date 1447200000000 2015 10 3)) = Some 9
   \<and> elapsed_years (mk_date 1762041600000 2025 10 2) (mk_date 1447200000000 2015 10 3) = 9
   \<and> computeAge (mk_date 1762041600000 2025 10 2) (Some (mk_date 0 1800 0 1)) = None"
  using C4_computeAge_whole_years [of "mk_date 1762041600000 2025 10 2" "mk_date 1447200000000 2015 10 3"]
        C4_computeAge_whole_years [of "mk_date 1762041600000 2025 10 2" "mk_date 0 1800 0 1"]
  by (simp add: elapsed_years_def precedes_md_def mk_date_def)

section \<open>The clock of the derived age\<close>

text \<open>
  C5, as the claim states it, fails: the function has no \<^verbatim>\<open>today\<close> parameter, and two
  invocations with the same birthday at different clock readings return different
  ages.
\<close>

theorem C5_clock_counterexample:
  "computeAge (mk_date 1592179200000 2020 5 15) (Some (mk_date 946684800000 2000 0 1))
   \<noteq> computeAge (mk_date 1623715200000 2021 5 15) (Some (mk_date 946684800000 2000 0 1))"
  by (simp add: computeAge_def mk_date_def)

text \<open>
  C5, amended. \<open>computeAge\<close> takes the birthday alone and reads today from the clock
  at each invocation; its result is a function of the birthday and of the UTC calendar
  day of that reading: two invocations with equal birthdays whose clock readings fall
  on the same UTC day return equal results, whatever the instants.
\<close>

theorem C5_computeAge_same_day:
  "ymd c1 = ymd c2 \<Longrightarrow> computeAge c1 bday = computeAge c2 bday"
  by (cases bday) (simp_all add: computeAge_def ymd_def)

theorem C5_computeAge_same_day_witness:
  "ymd (mk_date 1592179200000 2020 5 15) = ymd (mk_date 1592222222222 2020 5 15)
   \<and> getTime (mk_date 1592179200000 2020 5 15) \<noteq> getTime (mk_date 1592222222222 2020 5 15)
   \<and> computeAge (mk_date 1592179200000 2020 5 15) (Some (mk_date 946684800000 2000 0 1))
       = computeAge (mk_date 1592222222222 2020 5 15) (Some (mk_date 946684800000 2000 0 1))"
  using C5_computeAge_same_day [of "mk_date 1592179200000 2020 5 15"
          "mk_date 1592222222222 2020 5 15" "Some (mk_date 946684800000 2000 0 1)"]
  by (simp add: ymd_def mk_date_def)

section \<open>The fingerprint of a single person\<close>

lemmas ex_defs = ex_alice_def ex_bob_def ex_db_def ex_clock_def ex_now_def mk_date_def ex_env_def

lemma ex_by_id:
  "sql_person_by_id ex_db 1 = [ex_alice]"
  "sql_person_by_id ex_db 2 = [ex_bob]"
  by (simp_all add: sql_person_by_id_def ex_defs)

lemma show_ex_time: "show_int 1700000000000 = ''1700000000000''"
  by (simp add: show_int_def show_nat.simps digit_def)

text \<open>
  C10. The tag that \<^verbatim>\<open>GET /people/:id\<close> sends is the decimal rendering of
  \<^verbatim>\<open>updated_at.getTime()\<close> between double quotes and nothing else: for two persons of
  the store whose \<^verbatim>\<open>updated_at\<close> have the same milliseconds the two reads send the same
  tag, and the tag sent for the one makes the conditional read of the other answer
  304.
\<close>

theorem C10_fingerprint_has_no_identity:
  assumes "sql_person_by_id d i = p # ps" and "sql_person_by_id d j = q # qs"
    and "getTime (updated_at p) = getTime (updated_at q)"
  shows "get_person E d clock i None
           = Inr (Body (rest_toDTO clock p (contactsOf E d i))
                       (''\"'' @ show_int (getTime (updated_at p)) @ ''\"''))
         \<and> get_person E d clock j None
           = Inr (Body (rest_toDTO clock q (contactsOf E d j))
                       (''\"'' @ show_int (getTime (updated_at p)) @ ''\"''))
         \<and> get_person E d clock j (Some (''\"'' @ show_int (getTime (updated_at p)) @ ''\"''))
           = Inr Not_modified"
  using assms by (simp add: get_person_def item_etag_def Let_def)

theorem C10_fingerprint_witness:
  "get_person ex_env ex_db ex_clock 1 None
     = Inr (Body (rest_toDTO ex_clock ex_alice (contactsOf ex_env ex_db 1)) ''\"1700000000000\"'')
   \<and> get_person ex_env ex_db ex_clock 2 None
     = Inr (Body (rest_toDTO ex_clock ex_bob (contactsOf ex_env ex_db 2)) ''\"1700000000000\"'')
   \<and> get_person ex_env ex_db ex_clock 2 (Some ''\"1700000000000\"'') = Inr Not_modified"
proof -
  have t: "getTime (updated_at ex_alice) = getTime (updated_at ex_bob)"
    by (simp add: ex_defs)
  have a: "getTime (updated_at ex_alice) = 1700000000000"
    by (simp add: ex_defs)
  show ?thesis
    using C10_fingerprint_has_no_identity [OF ex_by_id(1) ex_by_id(2) t, where E = ex_env
        and clock = ex_clock]
    unfolding a show_ex_time by simp
qed

section \<open>Evaluating the definitions\<close>

lemmas sql_defs = sql_person_by_id_def sql_update_person_def sql_insert_person_def make_row_def
  sql_existing_ids_def sql_insert_contacts_def sql_delete_contacts_def sql_delete_person_def
  contactsOf_def summary_def values_of_def sql_page_def sql_count_def sql_maxu_def
  insert_values_def read_text_def has_nul_def bind_bigint_def digits_of_def isSafeInteger_def
  text_key_def

lemmas handler_defs = patch_person_def patch_person_try_def post_people_def post_people_try_def
  personSchema_def set_clause_def replace_contacts_def attach_contacts_def lift_pg_def on_catch_def
  insert_params_def no_keys_def contacts_only_def ex_carol_def get_person_def item_etag_def
  gql_createPerson_def gql_updatePerson_def gql_select_person_def gql_person_def
  delete_person_def gql_deletePerson_def

section \<open>The update statement and the partial update\<close>

lemma make_row_Inr:
  assumes "make_row others i c u v = Inr r"
  shows "p_id r = i" "created_at r = c" "updated_at r = u" "values_of r = v"
    "i \<notin> set (map p_id others)" "p_email r \<notin> set (map p_email others)"
  using assms
  by (cases v; auto simp: make_row_def values_of_def split: option.splits if_splits)+

lemma filter_map_replace:
  "p_id new = i \<Longrightarrow>
   filter (\<lambda>r. p_id r = i) (map (\<lambda>r. if p_id r = i then new else r) xs)
     = map (\<lambda>_. new) (filter (\<lambda>r. p_id r = i) xs)"
  by (induction xs) auto

lemma filter_map_keep:
  "p_id new = i \<Longrightarrow>
   filter (\<lambda>r. p_id r \<noteq> i) (map (\<lambda>r. if p_id r = i then new else r) xs)
     = filter (\<lambda>r. p_id r \<noteq> i) xs"
  by (induction xs) auto

lemma map_id_replace:
  "p_id new = i \<Longrightarrow> map p_id (map (\<lambda>r. if p_id r = i then new else r) xs) = map p_id xs"
  by (induction xs) auto

lemma sql_update_person_Inr:
  assumes u: "sql_update_person d now sets i = Inr d1" and o: "sql_person_by_id d i = old # olds"
  shows "\<exists>new news. sql_person_by_id d1 i = new # news
           \<and> values_of new = fold assign sets (values_of old)
           \<and> p_id new = i \<and> created_at new = created_at old \<and> updated_at new = now"
    and "filter (\<lambda>r. p_id r \<noteq> i) (person d1) = filter (\<lambda>r. p_id r \<noteq> i) (person d)"
    and "person_contacts d1 = person_contacts d"
    and "map p_id (person d1) = map p_id (person d)"
proof -
  from o have f: "filter (\<lambda>r. p_id r = i) (person d) = old # olds"
    by (simp add: sql_person_by_id_def)
  from u f obtain new where
    m: "make_row (filter (\<lambda>r. p_id r \<noteq> i) (person d)) i (created_at old) now
          (fold assign sets (values_of old)) = Inr new"
    and d1: "d1 = d\<lparr>person := map (\<lambda>r. if p_id r = i then new else r) (person d)\<rparr>"
    by (auto simp: sql_update_person_def split: sum.splits option.splits)
  note r = make_row_Inr [OF m]
  have "sql_person_by_id d1 i = new # map (\<lambda>_. new) olds"
    by (simp add: sql_person_by_id_def d1 filter_map_replace [OF r(1)] f)
  with r show "\<exists>new news. sql_person_by_id d1 i = new # news
           \<and> values_of new = fold assign sets (values_of old)
           \<and> p_id new = i \<and> created_at new = created_at old \<and> updated_at new = now"
    by blast
  show "filter (\<lambda>r. p_id r \<noteq> i) (person d1) = filter (\<lambda>r. p_id r \<noteq> i) (person d)"
    by (simp add: d1 filter_map_keep [OF r(1)])
  show "person_contacts d1 = person_contacts d"
    by (simp add: d1)
  show "map p_id (person d1) = map p_id (person d)"
    using map_id_replace [OF r(1)] by (simp add: d1)
qed

lemma fold_set_clause:
  "v_name (fold assign (set_clause b) v) = (if present (in_name b) then nullish (in_name b) else v_name v)"
  "v_surname (fold assign (set_clause b) v) = (if present (in_surname b) then nullish (in_surname b) else v_surname v)"
  "v_gender (fold assign (set_clause b) v) = (if present (in_gender b) then nullish (in_gender b) else v_gender v)"
  "v_birthday (fold assign (set_clause b) v) = (if present (in_birthday b) then nullish (in_birthday b) else v_birthday v)"
  "v_phone (fold assign (set_clause b) v) = (if present (in_phone b) then nullish (in_phone b) else v_phone v)"
  "v_email (fold assign (set_clause b) v) = (if present (in_email b) then nullish (in_email b) else v_email v)"
  by (simp_all add: set_clause_def)

lemma values_of_fields:
  assumes h: "values_of new = fold assign (set_clause b) (values_of old)"
  shows "keeps_absent_fields b old new"
proof -
  note fs = fold_set_clause [of b "values_of old", folded h]
  show ?thesis
    using fs by (auto simp: keeps_absent_fields_def values_of_def split: if_splits)
qed

lemma sql_insert_contacts_person:
  "sql_insert_contacts d i cs = Inr d' \<Longrightarrow> person d' = person d"
  by (auto simp: sql_insert_contacts_def split: sum.splits if_splits)

lemma attach_contacts_Inr:
  assumes "attach_contacts d i cs = Inr d'"
  shows "sql_insert_contacts d i cs = Inr d'" "length (sql_existing_ids d cs) = length cs"
    "person d' = person d"
  using assms
  by (auto simp: attach_contacts_def lift_pg_def sql_insert_contacts_person
      split: if_splits sum.splits)

lemma replace_contacts_person:
  "replace_contacts d i b = Inr d' \<Longrightarrow> person d' = person d"
  by (auto simp: replace_contacts_def Let_def sql_delete_contacts_def
      split: if_splits dest: attach_contacts_Inr(3))

lemma replace_contacts_absent:
  "\<not> present (in_contacts b) \<Longrightarrow> replace_contacts d i b = Inr d"
  by (simp add: replace_contacts_def)

lemma by_id_person_cong:
  "person d' = person d \<Longrightarrow> sql_person_by_id d' i = sql_person_by_id d i"
  by (simp add: sql_person_by_id_def)

lemma schema_string_Some:
  "schema_string f m r x = Some y \<Longrightarrow> present y = present x \<and> (x \<noteq> Null \<longrightarrow> y = x)"
  by (cases x) (auto split: if_splits)

lemma schema_gender_Some:
  "schema_gender x = Some y \<Longrightarrow>
     present y = present x \<and> (y = Absent \<or> y = Null \<or> y = Val ''male'' \<or> y = Val ''female'')"
  by (cases x) (auto split: if_splits)

lemma schema_contacts_Some:
  "schema_contacts x = Some y \<Longrightarrow> y = x \<and> distinct (items x)"
  by (cases x) (auto split: if_splits)

lemma schema_phone_present: "present (schema_phone x) = present x"
  by (cases x) auto

text \<open>What the validator leaves of a body it accepts.\<close>

lemma personSchema_Some:
  assumes "personSchema E r b = Some cb"
  shows "same_keys cb b"
    and "in_birthday cb = in_birthday b" and "in_contacts cb = in_contacts b"
    and "distinct (items (in_contacts b))"
    and "in_phone cb = schema_phone (in_phone b)"
    and "schema_string (\<lambda>s. True) 1 r (in_name b) = Some (in_name cb)"
    and "schema_string (\<lambda>s. True) 1 r (in_surname b) = Some (in_surname cb)"
    and "schema_gender (in_gender b) = Some (in_gender cb)"
    and "schema_string (email_format E) 0 r (in_email b) = Some (in_email cb)"
  using assms
  by (auto simp: personSchema_def same_keys_def schema_phone_present
      split: option.splits
      dest: schema_string_Some schema_gender_Some schema_contacts_Some)

lemma patch_person_Inr:
  assumes "patch_person E d now clock i b = (Inr dto, d')"
  shows "\<exists>cb old olds d1 p ps.
           personSchema E False b = Some cb
           \<and> sql_person_by_id d i = old # olds
           \<and> (if set_clause cb \<noteq> [] then sql_update_person d now (set_clause cb) i = Inr d1
               else d1 = d)
           \<and> replace_contacts d1 i cb = Inr d'
           \<and> sql_person_by_id d' i = p # ps
           \<and> dto = rest_toDTO clock p (contactsOf E d' i)"
  using assms
  by (auto simp: patch_person_def patch_person_try_def lift_pg_def
      split: if_splits sum.splits list.splits prod.splits option.splits)

lemma keeps_absent_fields_keys:
  "same_keys cb b \<Longrightarrow> keeps_absent_fields cb old new \<Longrightarrow> keeps_absent_fields b old new"
  by (simp add: same_keys_def keeps_absent_fields_def)

lemma sql_update_person_frame:
  assumes "sql_update_person d now sets i = Inr d1"
  shows "map p_id (person d1) = map p_id (person d)" "person_contacts d1 = person_contacts d"
proof -
  show "map p_id (person d1) = map p_id (person d)"
  proof (cases "sql_person_by_id d i")
    case Nil
    with assms show ?thesis
      by (auto simp: sql_update_person_def sql_person_by_id_def split: option.splits)
  next
    case (Cons old olds)
    from sql_update_person_Inr(4) [OF assms Cons] show ?thesis .
  qed
  show "person_contacts d1 = person_contacts d"
  proof (cases "sql_person_by_id d i")
    case Nil
    with assms show ?thesis
      by (auto simp: sql_update_person_def sql_person_by_id_def split: option.splits)
  next
    case (Cons old olds)
    from sql_update_person_Inr(3) [OF assms Cons] show ?thesis .
  qed
qed

lemma by_id_empty_iff:
  "sql_person_by_id d i = [] \<longleftrightarrow> i \<notin> set (map p_id (person d))"
  by (auto simp: sql_person_by_id_def filter_empty_conv)

lemma toDTO_same: "rest_toDTO clock r cs = gql_toDTO clock r cs"
proof -
  have "map (\<lambda>c. \<lparr>c_id = c_id c, c_name = c_name c, c_surname = c_surname c,
                    c_email = c_email c\<rparr>) cs = cs"
    by (induction cs) simp_all
  then show ?thesis
    by (simp add: rest_toDTO_def gql_toDTO_def)
qed

lemma gql_select_person_Inr:
  "gql_select_person E d clock i = (Inr dto, d') \<Longrightarrow>
     d' = d \<and> (\<exists>p ps. sql_person_by_id d i = p # ps \<and> dto = gql_toDTO clock p (contactsOf E d i))"
  by (auto simp: gql_select_person_def split: list.splits)

lemma gql_updatePerson_Inr:
  assumes "gql_updatePerson E d now clock i b = (Inr dto, d')"
  shows "\<exists>d1 p ps.
           (if set_clause b \<noteq> [] then sql_update_person d now (set_clause b) i = Inr d1
            else d1 = d)
           \<and> (if present (in_contacts b)
               then (if items (in_contacts b) \<noteq> []
                     then sql_insert_contacts (sql_delete_contacts d1 i) i (items (in_contacts b))
                            = Inr d'
                     else d' = sql_delete_contacts d1 i)
               else d' = d1)
           \<and> sql_person_by_id d' i = p # ps
           \<and> dto = gql_toDTO clock p (contactsOf E d' i)"
  using assms
  by (auto simp: gql_updatePerson_def Let_def
      split: if_splits sum.splits dest!: gql_select_person_Inr)

text \<open>
  C7. Whenever a partial update succeeds, on either surface, the row it returns has in
  every scalar column whose key is absent from the input the value the row had before,
  and when the \<^verbatim>\<open>contacts\<close> key is absent the link table is the one from before.
\<close>

theorem C7_partial_update_frame:
  assumes "patch_person E d now clock i b = (Inr dto, d')
           \<or> gql_updatePerson E d now clock i b = (Inr dto, d')"
  shows "\<exists>old olds new news.
           sql_person_by_id d i = old # olds \<and> sql_person_by_id d' i = new # news
           \<and> keeps_absent_fields b old new
           \<and> dto = rest_toDTO clock new (contactsOf E d' i)
           \<and> (\<not> present (in_contacts b) \<longrightarrow> person_contacts d' = person_contacts d)"
proof -
  from assms obtain cb d1 new news where
    k: "same_keys cb b"
    and u: "if set_clause cb \<noteq> [] then sql_update_person d now (set_clause cb) i = Inr d1
            else d1 = d"
    and p: "person d' = person d1"
    and c: "\<not> present (in_contacts b) \<longrightarrow> person_contacts d' = person_contacts d1"
    and n: "sql_person_by_id d' i = new # news"
    and dto: "dto = rest_toDTO clock new (contactsOf E d' i)"
  proof
    assume "patch_person E d now clock i b = (Inr dto, d')"
    from patch_person_Inr [OF this] obtain cb d1 p ps where
      s: "personSchema E False b = Some cb"
      and "if set_clause cb \<noteq> [] then sql_update_person d now (set_clause cb) i = Inr d1
           else d1 = d"
      "replace_contacts d1 i cb = Inr d'" "sql_person_by_id d' i = p # ps"
      "dto = rest_toDTO clock p (contactsOf E d' i)"
      by blast
    then show ?thesis
      using that [of cb d1 p ps] replace_contacts_person [of d1 i cb d']
        replace_contacts_absent [of cb d1 i] personSchema_Some(1,3) [OF s]
      by auto
  next
    assume "gql_updatePerson E d now clock i b = (Inr dto, d')"
    from gql_updatePerson_Inr [OF this] obtain d1 p ps where
      u: "if set_clause b \<noteq> [] then sql_update_person d now (set_clause b) i = Inr d1 else d1 = d"
      and r: "if present (in_contacts b)
          then (if items (in_contacts b) \<noteq> []
                then sql_insert_contacts (sql_delete_contacts d1 i) i (items (in_contacts b)) = Inr d'
                else d' = sql_delete_contacts d1 i)
          else d' = d1"
      and s: "sql_person_by_id d' i = p # ps" "dto = gql_toDTO clock p (contactsOf E d' i)"
      by blast
    from r have "person d' = person d1"
      by (auto simp: sql_delete_contacts_def split: if_splits dest: sql_insert_contacts_person)
    moreover from r have "\<not> present (in_contacts b) \<longrightarrow> person_contacts d' = person_contacts d1"
      by simp
    moreover have "same_keys b b"
      by (simp add: same_keys_def)
    ultimately show ?thesis
      using that [of b d1 p ps] u s by (simp add: toDTO_same)
  qed
  from n p have n1: "sql_person_by_id d1 i = new # news"
    by (simp add: sql_person_by_id_def)
  show ?thesis
  proof (cases "set_clause cb = []")
    case True
    with u have "d1 = d" by simp
    moreover have "keeps_absent_fields b new new"
      by (simp add: keeps_absent_fields_def)
    ultimately show ?thesis
      using n n1 c dto by auto
  next
    case False
    with u have up: "sql_update_person d now (set_clause cb) i = Inr d1" by simp
    from n1 have "i \<in> set (map p_id (person d1))"
      using by_id_empty_iff [of d1 i] by simp
    then have "i \<in> set (map p_id (person d))"
      by (simp only: sql_update_person_frame(1) [OF up])
    then have "sql_person_by_id d i \<noteq> []"
      by (simp only: by_id_empty_iff not_not)
    then obtain old olds where o: "sql_person_by_id d i = old # olds"
      by (cases "sql_person_by_id d i") auto
    from sql_update_person_Inr(1) [OF up o] n1
    have "values_of new = fold assign (set_clause cb) (values_of old)"
      by auto
    then have "keeps_absent_fields cb old new"
      by (rule values_of_fields)
    then have "keeps_absent_fields b old new"
      using k by (rule keeps_absent_fields_keys [rotated])
    then show ?thesis
      using o n c dto sql_update_person_frame(2) [OF up] by auto
  qed
qed

theorem C7_partial_update_frame_witness:
  "\<exists>dto d'. patch_person ex_env ex_db ex_now ex_clock 1 (no_keys\<lparr>in_phone := Val ''+999''\<rparr>) = (Inr dto, d')
      \<and> (\<exists>old olds new news.
            sql_person_by_id ex_db 1 = old # olds \<and> sql_person_by_id d' 1 = new # news
            \<and> keeps_absent_fields (no_keys\<lparr>in_phone := Val ''+999''\<rparr>) old new
            \<and> p_name new = ''Alice'' \<and> p_email new = ''alice@example.com''
            \<and> person_contacts d' = person_contacts ex_db)"
proof -
  obtain dto d' where
    e: "patch_person ex_env ex_db ex_now ex_clock 1 (no_keys\<lparr>in_phone := Val ''+999''\<rparr>) = (Inr dto, d')"
    by (simp add: handler_defs sql_defs ex_defs)
  from C7_partial_update_frame [where E = ex_env and d = ex_db and now = ex_now
      and clock = ex_clock and i = 1 and b = "no_keys\<lparr>in_phone := Val ''+999''\<rparr>"
      and dto = dto and d' = d']
    e ex_by_id(1)
  have "\<exists>old olds new news.
            sql_person_by_id ex_db 1 = old # olds \<and> sql_person_by_id d' 1 = new # news
            \<and> keeps_absent_fields (no_keys\<lparr>in_phone := Val ''+999''\<rparr>) old new
            \<and> p_name new = ''Alice'' \<and> p_email new = ''alice@example.com''
            \<and> person_contacts d' = person_contacts ex_db"
    by (auto simp: keeps_absent_fields_def no_keys_def ex_alice_def)
  with e show ?thesis by blast
qed

section \<open>The modification time under a partial update\<close>

text \<open>
  An update that carries a scalar key runs the update statement, and the row it returns
  has \<^verbatim>\<open>updated_at = now()\<close>.
\<close>

lemma set_clause_keys:
  "same_keys cb b \<Longrightarrow> set_clause cb = [] \<longleftrightarrow> set_clause b = []"
  by (auto simp: same_keys_def set_clause_def split: if_splits)

lemma replace_contacts_cong:
  "in_contacts a = in_contacts b \<Longrightarrow> replace_contacts d i a = replace_contacts d i b"
  by (simp add: replace_contacts_def Let_def)

lemma patch_scalar_sets_updated_at:
  assumes "patch_person E d now clock i b = (Inr dto, d')" and "set_clause b \<noteq> []"
  shows "\<exists>p ps. sql_person_by_id d' i = p # ps \<and> updated_at p = now
           \<and> dto_modified dto = getTime now"
proof -
  from patch_person_Inr [OF assms(1)] obtain cb old olds d1 p ps where
    s: "personSchema E False b = Some cb"
    and o: "sql_person_by_id d i = old # olds"
    and u': "if set_clause cb \<noteq> [] then sql_update_person d now (set_clause cb) i = Inr d1
             else d1 = d"
    and r: "replace_contacts d1 i cb = Inr d'"
    and n: "sql_person_by_id d' i = p # ps"
    and dto: "dto = rest_toDTO clock p (contactsOf E d' i)"
    by blast
  from set_clause_keys [OF personSchema_Some(1) [OF s]] assms(2) u'
  have u: "sql_update_person d now (set_clause cb) i = Inr d1"
    by simp
  from replace_contacts_person [OF r] n have "sql_person_by_id d1 i = p # ps"
    by (simp add: sql_person_by_id_def)
  with sql_update_person_Inr(1) [OF u o] have "updated_at p = now"
    by auto
  then show ?thesis
    using n dto by (simp add: rest_toDTO_def Let_def)
qed

text \<open>
  C2, as the claim states it, fails: a successful update whose only key is
  \<^verbatim>\<open>contacts\<close> changes the links of the person and leaves \<^verbatim>\<open>updated_at\<close> alone, so the
  tag sent before the update still answers 304 after it.
\<close>

theorem C2_contacts_only_counterexample:
  "\<not> isl (fst (patch_person ex_env ex_db ex_now ex_clock 1 (contacts_only [2])))
   \<and> person_contacts (snd (patch_person ex_env ex_db ex_now ex_clock 1 (contacts_only [2]))) = [(1, 2)]
   \<and> get_person ex_env ex_db ex_clock 1 None
       = Inr (Body (rest_toDTO ex_clock ex_alice []) ''\"1700000000000\"'')
   \<and> get_person ex_env (snd (patch_person ex_env ex_db ex_now ex_clock 1 (contacts_only [2]))) ex_clock 1
         (Some ''\"1700000000000\"'')
       = Inr Not_modified"
proof -
  have e: "\<exists>dto. patch_person ex_env ex_db ex_now ex_clock 1 (contacts_only [2])
             = (Inr dto, ex_db\<lparr>person_contacts := [(1, 2)]\<rparr>)"
    by (simp add: handler_defs sql_defs ex_defs)
  have g: "get_person ex_env ex_db ex_clock 1 None
       = Inr (Body (rest_toDTO ex_clock ex_alice []) (''\"'' @ show_int 1700000000000 @ ''\"''))"
    by (simp add: get_person_def item_etag_def sql_defs ex_defs)
  have h: "get_person ex_env (ex_db\<lparr>person_contacts := [(1, 2)]\<rparr>) ex_clock 1
             (Some (''\"'' @ show_int 1700000000000 @ ''\"'')) = Inr Not_modified"
    by (simp add: get_person_def item_etag_def sql_person_by_id_def ex_defs)
  from e g h show ?thesis
    unfolding show_ex_time by auto
qed

text \<open>
  C2, amended. A successful update whose input has the \<^verbatim>\<open>contacts\<close> key and no scalar
  key runs no update statement on \<^verbatim>\<open>person\<close>: the table, the person's \<^verbatim>\<open>updated_at\<close> and
  with it the single-item fingerprint are the same after the update as before, and a
  conditional read with the earlier fingerprint answers 304.
\<close>

theorem C2_contacts_only_keeps_fingerprint:
  assumes "patch_person E d now clock i (no_keys\<lparr>in_contacts := c\<rparr>) = (Inr dto, d')"
  shows "person d' = person d
         \<and> (\<exists>p ps. sql_person_by_id d i = p # ps \<and> sql_person_by_id d' i = p # ps
               \<and> dto_modified dto = getTime (updated_at p)
               \<and> get_person E d clock i None
                    = Inr (Body (rest_toDTO clock p (contactsOf E d i)) (item_etag p))
               \<and> get_person E d' clock i (Some (item_etag p)) = Inr Not_modified)"
proof -
  have sc: "set_clause (no_keys\<lparr>in_contacts := c\<rparr>) = []"
    by (simp add: set_clause_def no_keys_def)
  from patch_person_Inr [OF assms] obtain cb old olds d1 p ps where
    s: "personSchema E False (no_keys\<lparr>in_contacts := c\<rparr>) = Some cb"
    and o: "sql_person_by_id d i = old # olds"
    and u: "if set_clause cb \<noteq> [] then sql_update_person d now (set_clause cb) i = Inr d1
            else d1 = d"
    and r': "replace_contacts d1 i cb = Inr d'"
    and n: "sql_person_by_id d' i = p # ps"
    and dto: "dto = rest_toDTO clock p (contactsOf E d' i)"
    by blast
  from set_clause_keys [OF personSchema_Some(1) [OF s]] sc u have "d1 = d"
    by simp
  with r' replace_contacts_cong [OF personSchema_Some(3) [OF s], of d i]
  have r: "replace_contacts d i (no_keys\<lparr>in_contacts := c\<rparr>) = Inr d'"
    by simp
  from replace_contacts_person [OF r] have eq: "person d' = person d" .
  with o n have same: "p = old" "ps = olds"
    by (simp_all add: sql_person_by_id_def)
  have "dto_modified dto = getTime (updated_at p)"
    by (simp add: dto rest_toDTO_def Let_def)
  moreover have "get_person E d clock i None
                    = Inr (Body (rest_toDTO clock p (contactsOf E d i)) (item_etag p))"
    using o same by (simp add: get_person_def)
  moreover have "get_person E d' clock i (Some (item_etag p)) = Inr Not_modified"
    using n by (simp add: get_person_def)
  ultimately show ?thesis
    using eq o n same by blast
qed

theorem C2_contacts_only_witness:
  "\<exists>dto d'. patch_person ex_env ex_db ex_now ex_clock 1 (no_keys\<lparr>in_contacts := Val [2]\<rparr>) = (Inr dto, d')
     \<and> person d' = person ex_db \<and> person_contacts d' \<noteq> person_contacts ex_db
     \<and> get_person ex_env d' ex_clock 1 (Some (item_etag ex_alice)) = Inr Not_modified"
proof -
  obtain dto where
    e: "patch_person ex_env ex_db ex_now ex_clock 1 (no_keys\<lparr>in_contacts := Val [2]\<rparr>)
          = (Inr dto, ex_db\<lparr>person_contacts := [(1, 2)]\<rparr>)"
    by (auto simp: handler_defs sql_defs ex_defs)
  from C2_contacts_only_keeps_fingerprint [OF e] ex_by_id(1)
  have "person (ex_db\<lparr>person_contacts := [(1, 2)]\<rparr>) = person ex_db
     \<and> get_person ex_env (ex_db\<lparr>person_contacts := [(1, 2)]\<rparr>) ex_clock 1 (Some (item_etag ex_alice)) = Inr Not_modified"
    by auto
  moreover have "person_contacts (ex_db\<lparr>person_contacts := [(1, 2)]\<rparr>) \<noteq> person_contacts ex_db"
    by (simp add: ex_db_def)
  ultimately show ?thesis using e by blast
qed

section \<open>Failures and the storage they leave\<close>

text \<open>
  On the resource-style surface every failure ends in \<^verbatim>\<open>rollback\<close>: the storage after a
  failed create or update is the storage before it.
\<close>

lemma post_people_failure_rolls_back:
  "post_people E d now clock new_id b = (Inl e, d') \<Longrightarrow> d' = d"
  by (auto simp: post_people_def split: option.splits sum.splits prod.splits)

lemma patch_person_failure_rolls_back:
  "patch_person E d now clock i b = (Inl e, d') \<Longrightarrow> d' = d"
  by (auto simp: patch_person_def split: option.splits sum.splits prod.splits)

text \<open>
  C3 on the typed-query surface: \<^verbatim>\<open>createPerson\<close> with a contact id that no person has.
  The person row is inserted by a statement of its own, the insert of the link then
  fails on the foreign key, and the row stays; the same request on the resource-style
  surface is refused with the 400 of the contact check and leaves the storage as it
  was.
\<close>

theorem C3_createPerson_keeps_row_on_failure:
  "gql_createPerson ex_env ex_db ex_now ex_clock 3 (ex_carol\<lparr>in_contacts := Val [7]\<rparr>)
     = (Inl (Pg Foreign_key_violation), ex_db\<lparr>person := [ex_bob, ex_alice, ex_carol_row]\<rparr>)
   \<and> post_people ex_env ex_db ex_now ex_clock 3 (ex_carol\<lparr>in_contacts := Val [7]\<rparr>)
     = (Inl (BadRequest ''One or more contact IDs do not exist''), ex_db)"
  by (simp add: handler_defs sql_defs ex_defs ex_carol_row_def)

section \<open>Replacing the contact set\<close>

lemma existing_count:
  assumes "distinct (map p_id ps)" and "distinct cs"
  shows "length (filter (\<lambda>r. p_id r \<in> set cs) ps) = card (set cs \<inter> set (map p_id ps))"
proof -
  have "distinct (map p_id (filter (\<lambda>r. p_id r \<in> set cs) ps))"
    using assms(1) by (rule distinct_map_filter)
  then have "length (map p_id (filter (\<lambda>r. p_id r \<in> set cs) ps))
               = card (set (map p_id (filter (\<lambda>r. p_id r \<in> set cs) ps)))"
    by (simp only: distinct_card)
  moreover have "set (map p_id (filter (\<lambda>r. p_id r \<in> set cs) ps)) = set cs \<inter> set (map p_id ps)"
    by auto
  ultimately show ?thesis by simp
qed

lemma existing_ids_all:
  assumes "distinct (map p_id (person d))" and "distinct cs"
  shows "length (sql_existing_ids d cs) = length cs \<longleftrightarrow> set cs \<subseteq> set (map p_id (person d))"
proof
  assume l: "length (sql_existing_ids d cs) = length cs"
  show "set cs \<subseteq> set (map p_id (person d))"
  proof (rule ccontr)
    assume "\<not> set cs \<subseteq> set (map p_id (person d))"
    then have "set cs \<inter> set (map p_id (person d)) \<subset> set cs" by auto
    then have "card (set cs \<inter> set (map p_id (person d))) < card (set cs)"
      by (simp add: psubset_card_mono)
    with existing_count [OF assms] l assms(2) show False
      by (simp add: sql_existing_ids_def distinct_card)
  qed
next
  assume "set cs \<subseteq> set (map p_id (person d))"
  then have "set cs \<inter> set (map p_id (person d)) = set cs" by auto
  with existing_count [OF assms] assms(2) show "length (sql_existing_ids d cs) = length cs"
    by (simp add: sql_existing_ids_def distinct_card)
qed

lemma insert_links_fresh:
  "i \<notin> set cs \<Longrightarrow> distinct cs \<Longrightarrow> \<forall>c \<in> set cs. (i, c) \<notin> set tbl \<Longrightarrow>
     insert_links tbl (map (Pair i) cs) = Inr (tbl @ map (Pair i) cs)"
proof (induction cs arbitrary: tbl)
  case Nil
  then show ?case by simp
next
  case (Cons a cs)
  have "insert_links (tbl @ [(i, a)]) (map (Pair i) cs) = Inr ((tbl @ [(i, a)]) @ map (Pair i) cs)"
    using Cons.prems by (intro Cons.IH) auto
  then show ?case
    using Cons.prems by simp
qed

lemma sql_insert_contacts_valid:
  assumes "i \<notin> set cs" "distinct cs" "\<forall>c \<in> set cs. (i, c) \<notin> set (person_contacts d)"
    and "i \<in> set (map p_id (person d))" "set cs \<subseteq> set (map p_id (person d))"
  shows "sql_insert_contacts d i cs
           = Inr (d\<lparr>person_contacts := person_contacts d @ map (Pair i) cs\<rparr>)"
  using assms insert_links_fresh [OF assms(1,2,3)]
  by (simp add: sql_insert_contacts_def)

lemma patch_contacts_only:
  assumes ex: "sql_person_by_id d i = p # ps"
    and pk: "distinct (map p_id (person d))"
    and S: "distinct S" "set S \<subseteq> set (map p_id (person d))" "i \<notin> set S"
  shows "patch_person E d now clock i (contacts_only S)
           = (Inr (rest_toDTO clock p
                     (contactsOf E (d\<lparr>person_contacts :=
                        filter (\<lambda>l. fst l \<noteq> i) (person_contacts d) @ map (Pair i) S\<rparr>) i)),
              d\<lparr>person_contacts := filter (\<lambda>l. fst l \<noteq> i) (person_contacts d) @ map (Pair i) S\<rparr>)"
proof -
  let ?d2 = "sql_delete_contacts d i"
  let ?d3 = "d\<lparr>person_contacts := filter (\<lambda>l. fst l \<noteq> i) (person_contacts d) @ map (Pair i) S\<rparr>"
  have p2: "person ?d2 = person d" and l2: "person_contacts ?d2 = filter (\<lambda>l. fst l \<noteq> i) (person_contacts d)"
    by (simp_all add: sql_delete_contacts_def)
  have schema: "personSchema E False (contacts_only S) = Some (contacts_only S)"
    using S(1) by (simp add: personSchema_def contacts_only_def no_keys_def)
  have sc: "set_clause (contacts_only S) = []"
    by (simp add: set_clause_def contacts_only_def no_keys_def)
  have i_in: "i \<in> set (map p_id (person d))"
    using ex by_id_empty_iff [of d i] by simp
  have cnt: "length (sql_existing_ids ?d2 S) = length S"
    using existing_ids_all [of ?d2 S] pk S(1,2) by (simp add: p2)
  have ins: "sql_insert_contacts ?d2 i S = Inr ?d3"
  proof -
    have "\<forall>c \<in> set S. (i, c) \<notin> set (person_contacts ?d2)"
      by (simp add: l2)
    from sql_insert_contacts_valid [OF S(3) S(1) this] i_in S(2)
    show ?thesis by (simp add: p2 l2 sql_delete_contacts_def)
  qed
  have rc: "replace_contacts d i (contacts_only S) = Inr ?d3"
  proof (cases "S = []")
    case True
    then show ?thesis
      by (simp add: replace_contacts_def contacts_only_def no_keys_def sql_delete_contacts_def)
  next
    case False
    then show ?thesis
      using cnt ins
      by (simp add: replace_contacts_def contacts_only_def no_keys_def attach_contacts_def
            lift_pg_def Let_def)
  qed
  have by3: "sql_person_by_id ?d3 i = p # ps"
    using ex by (simp add: sql_person_by_id_def)
  show ?thesis
    using schema sc ex rc by3
    by (simp add: patch_person_def patch_person_try_def)
qed

text \<open>
  C6. For a person of the store and a list \<open>S\<close> of distinct identifiers of persons of
  the store other than the person itself, the update whose only key is
  \<^verbatim>\<open>contacts: S\<close> succeeds and leaves as the person's links exactly the pairs with
  \<open>S\<close>; applied again to the resulting store it succeeds again, leaves that store as it
  is and returns the same contacts.
\<close>

theorem C6_replace_idempotent:
  assumes ex: "sql_person_by_id d i \<noteq> []"
    and pk: "distinct (map p_id (person d))"
    and S: "distinct S" "set S \<subseteq> set (map p_id (person d))" "i \<notin> set S"
  shows "\<exists>dto1 d1 dto2.
           patch_person E d now clock i (contacts_only S) = (Inr dto1, d1)
           \<and> person_contacts d1 = filter (\<lambda>l. fst l \<noteq> i) (person_contacts d) @ map (Pair i) S
           \<and> patch_person E d1 now' clock' i (contacts_only S) = (Inr dto2, d1)
           \<and> dto_contacts dto2 = dto_contacts dto1"
proof -
  from ex obtain p ps where o: "sql_person_by_id d i = p # ps"
    by (cases "sql_person_by_id d i") auto
  let ?d1 = "d\<lparr>person_contacts := filter (\<lambda>l. fst l \<noteq> i) (person_contacts d) @ map (Pair i) S\<rparr>"
  note first = patch_contacts_only [OF o pk S, of E now clock]
  have o1: "sql_person_by_id ?d1 i = p # ps"
    using o by (simp add: sql_person_by_id_def)
  have again: "?d1\<lparr>person_contacts := filter (\<lambda>l. fst l \<noteq> i) (person_contacts ?d1) @ map (Pair i) S\<rparr> = ?d1"
    by simp
  from patch_contacts_only [OF o1, of S E now' clock'] pk S
  have second: "patch_person E ?d1 now' clock' i (contacts_only S)
           = (Inr (rest_toDTO clock' p (contactsOf E ?d1 i)), ?d1)"
    unfolding again by simp
  show ?thesis
    using first second by (simp add: rest_toDTO_def Let_def)
qed

theorem C6_replace_idempotent_witness:
  "\<exists>dto1 d1 dto2.
      patch_person ex_env ex_db ex_now ex_clock 1 (contacts_only [2]) = (Inr dto1, d1)
      \<and> person_contacts d1 = [(1, 2)]
      \<and> patch_person ex_env d1 ex_now ex_clock 1 (contacts_only [2]) = (Inr dto2, d1)
      \<and> dto_contacts dto2 = dto_contacts dto1"
proof -
  have a: "sql_person_by_id ex_db 1 \<noteq> []" by (simp add: sql_person_by_id_def ex_defs)
  have b: "distinct (map p_id (person ex_db))" by (simp add: ex_defs)
  have c: "distinct [2::nat]" "set [2] \<subseteq> set (map p_id (person ex_db))" "(1::nat) \<notin> set [2]"
    by (simp_all add: ex_defs)
  from C6_replace_idempotent [OF a b c, of ex_env ex_now ex_clock ex_now ex_clock]
  show ?thesis by (simp add: ex_db_def)
qed

section \<open>The uniqueness of the email\<close>

lemma schema_string_required:
  "schema_string f m True x = Some y \<Longrightarrow> \<exists>s. y = Val s \<and> f s"
  by (cases x) (auto split: if_splits)

lemma personSchema_required:
  assumes "personSchema E True b = Some cb"
  shows "\<exists>n s e. in_name cb = Val n \<and> in_surname cb = Val s \<and> in_email cb = Val e"
    and "nullish (in_gender cb) = None \<or> nullish (in_gender cb) = Some ''male''
         \<or> nullish (in_gender cb) = Some ''female''"
proof -
  from personSchema_Some(6,7,9) [OF assms]
  show "\<exists>n s e. in_name cb = Val n \<and> in_surname cb = Val s \<and> in_email cb = Val e"
    by (blast dest: schema_string_required)
  from schema_gender_Some [OF personSchema_Some(8) [OF assms]]
  show "nullish (in_gender cb) = None \<or> nullish (in_gender cb) = Some ''male''
         \<or> nullish (in_gender cb) = Some ''female''"
    by auto
qed

lemma insert_person_duplicate_email:
  assumes "personSchema E True b = Some cb" and "storable cb"
    and "in_email cb = Val e" and "e \<in> set (map p_email (person d))"
  shows "sql_insert_person d now new_id (insert_params cb) = Inl Unique_violation"
proof -
  from personSchema_required(1) [OF assms(1)] obtain n s where
    ns: "in_name cb = Val n" "in_surname cb = Val s"
    by blast
  note g = personSchema_required(2) [OF assms(1)]
  have "make_row (person d) new_id now now (insert_params cb) = Inl Unique_violation"
    using ns g assms(3,4) by (auto simp: make_row_def insert_params_def)
  then show ?thesis
    using assms(2) by (simp add: sql_insert_person_def storable_def)
qed

lemma filter_id_fresh:
  "i \<notin> set (map p_id ps) \<Longrightarrow> filter (\<lambda>r. p_id r = i) ps = []"
  by (induction ps) auto

lemma by_id_unique:
  "distinct (map p_id ps) \<Longrightarrow> p \<in> set ps \<Longrightarrow> filter (\<lambda>r. p_id r = p_id p) ps = [p]"
proof (induction ps)
  case Nil
  then show ?case by simp
next
  case (Cons a ps)
  show ?case
  proof (cases "a = p")
    case True
    with Cons.prems(1) have "filter (\<lambda>r. p_id r = p_id p) ps = []"
      by (intro filter_id_fresh) simp
    with True show ?thesis by simp
  next
    case False
    with Cons.prems have "p \<in> set ps" "p_id a \<noteq> p_id p"
      by auto
    with Cons show ?thesis by simp
  qed
qed

text \<open>
  C9, as the claim states it, fails: not every create with the email of a stored person
  ends in the conflict. A body with an empty name is refused by the validator with the
  400 before any statement runs. A body with the character U+0000 in its name passes the
  schema, and the store refuses the parameter before it looks at the unique index; the
  handler maps only 23505 to the conflict and throws the error 22021 on.
\<close>

theorem C9_unreadable_text_counterexample:
  "post_people ex_env ex_db ex_now ex_clock 3
       (ex_carol\<lparr>in_name := Val [], in_email := Val ''alice@example.com''\<rparr>)
     = (Inl Validation, ex_db)
   \<and> personSchema ex_env True
       (ex_carol\<lparr>in_name := Val [CHR ''C'', CHR 0x00], in_email := Val ''alice@example.com''\<rparr>)
     = Some (ex_carol\<lparr>in_name := Val [CHR ''C'', CHR 0x00],
                      in_email := Val ''alice@example.com''\<rparr>)
   \<and> post_people ex_env ex_db ex_now ex_clock 3
       (ex_carol\<lparr>in_name := Val [CHR ''C'', CHR 0x00], in_email := Val ''alice@example.com''\<rparr>)
     = (Inl (Pg Character_not_in_repertoire), ex_db)"
  by (simp add: handler_defs sql_defs ex_defs)

text \<open>
  C9, amended. A create whose body passes the schema, whose values the store can read
  as parameters (no U+0000 in a text, no year 0000) and whose email is the stored email
  of a person fails with the 409 conflict, which the handler derives from the unique
  violation of the insert; the storage is unchanged and the person is read as before.
\<close>

theorem C9_duplicate_email_conflict:
  assumes "p \<in> set (person d)" and "distinct (map p_id (person d))"
    and "personSchema E True b = Some cb" and "storable cb"
    and "in_email b = Val (p_email p)"
  shows "sql_insert_person d now new_id (insert_params cb) = Inl Unique_violation
         \<and> post_people E d now clock new_id b = (Inl (Conflict ''Email already exists''), d)
         \<and> get_person E (snd (post_people E d now clock new_id b)) clock' (p_id p) None
             = Inr (Body (rest_toDTO clock' p (contactsOf E d (p_id p))) (item_etag p))"
proof -
  have "p_email p \<in> set (map p_email (person d))"
    using assms(1) by simp
  moreover have "in_email cb = Val (p_email p)"
    using schema_string_Some [OF personSchema_Some(9) [OF assms(3)]] assms(5) by simp
  ultimately
  have u: "sql_insert_person d now new_id (insert_params cb) = Inl Unique_violation"
    using insert_person_duplicate_email [OF assms(3,4)] by blast
  then have c: "post_people E d now clock new_id b = (Inl (Conflict ''Email already exists''), d)"
    using assms(3) by (simp add: post_people_def post_people_try_def lift_pg_def on_catch_def)
  have "sql_person_by_id d (p_id p) = [p]"
    using by_id_unique [OF assms(2,1)] by (simp add: sql_person_by_id_def)
  then have "get_person E d clock' (p_id p) None
             = Inr (Body (rest_toDTO clock' p (contactsOf E d (p_id p))) (item_etag p))"
    by (simp add: get_person_def)
  with u c show ?thesis by simp
qed

theorem C9_duplicate_email_witness:
  "sql_insert_person ex_db ex_now 3 (insert_params (ex_carol\<lparr>in_email := Val ''alice@example.com''\<rparr>))
     = Inl Unique_violation
   \<and> post_people ex_env ex_db ex_now ex_clock 3 (ex_carol\<lparr>in_email := Val ''alice@example.com''\<rparr>)
     = (Inl (Conflict ''Email already exists''), ex_db)
   \<and> get_person ex_env (snd (post_people ex_env ex_db ex_now ex_clock 3
                         (ex_carol\<lparr>in_email := Val ''alice@example.com''\<rparr>))) ex_clock 1 None
       = Inr (Body (rest_toDTO ex_clock ex_alice (contactsOf ex_env ex_db 1)) (item_etag ex_alice))"
proof -
  have a: "ex_alice \<in> set (person ex_db)" by (simp add: ex_db_def)
  have b: "distinct (map p_id (person ex_db))" by (simp add: ex_defs)
  have c: "personSchema ex_env True (ex_carol\<lparr>in_email := Val ''alice@example.com''\<rparr>)
             = Some (ex_carol\<lparr>in_email := Val ''alice@example.com''\<rparr>)"
    by (simp add: personSchema_def ex_carol_def ex_env_def)
  have s: "storable (ex_carol\<lparr>in_email := Val ''alice@example.com''\<rparr>)"
    by (simp add: storable_def insert_values_def insert_params_def ex_carol_def read_text_def
          has_nul_def)
  have d: "in_email (ex_carol\<lparr>in_email := Val ''alice@example.com''\<rparr>) = Val (p_email ex_alice)"
    by (simp add: ex_alice_def)
  have i: "p_id ex_alice = 1" by (simp add: ex_alice_def)
  from C9_duplicate_email_conflict [OF a b c s d, where now = ex_now and clock = ex_clock
      and new_id = 3 and clock' = ex_clock]
  show ?thesis unfolding i .
qed

text \<open>The same for two creates in a row: the second finds the row of the first.\<close>

lemma post_people_Inr:
  assumes "post_people E d now clock new_id b = (Inr dto, d')"
  shows "\<exists>cb p d1. personSchema E True b = Some cb
           \<and> sql_insert_person d now new_id (insert_params cb) = Inr (p, d1)
           \<and> (if items (in_contacts cb) \<noteq> []
               then length (sql_existing_ids d1 (items (in_contacts cb))) = length (items (in_contacts cb))
                    \<and> sql_insert_contacts d1 (p_id p) (items (in_contacts cb)) = Inr d'
               else d' = d1)
           \<and> dto = rest_toDTO clock p (contactsOf E d' (p_id p))"
  using assms
  by (auto simp: post_people_def post_people_try_def lift_pg_def attach_contacts_def
      split: if_splits sum.splits prod.splits option.splits)

lemma sql_insert_person_Inr:
  assumes "sql_insert_person d now new_id v = Inr (p, d1)"
  shows "d1 = d\<lparr>person := person d @ [p]\<rparr>" "p_id p = new_id" "values_of p = v"
    "new_id \<notin> set (map p_id (person d))" "p_email p \<notin> set (map p_email (person d))"
    "created_at p = now" "updated_at p = now"
  using assms
  by (auto simp: sql_insert_person_def split: sum.splits option.splits dest: make_row_Inr)

lemma post_people_then_duplicate:
  assumes first: "post_people E d0 now1 clock1 id1 b1 = (Inr dto1, d1)"
    and "personSchema E True b2 = Some cb2" and "storable cb2"
    and "in_email b2 = in_email b1"
  shows "post_people E d1 now2 clock2 id2 b2 = (Inl (Conflict ''Email already exists''), d1)
         \<and> (\<exists>tag. get_person E d1 clock1 id1 None = Inr (Body dto1 tag))"
proof -
  from post_people_Inr [OF first] obtain cb1 p da where
    s: "personSchema E True b1 = Some cb1"
    and i: "sql_insert_person d0 now1 id1 (insert_params cb1) = Inr (p, da)"
    and c: "if items (in_contacts cb1) \<noteq> []
            then length (sql_existing_ids da (items (in_contacts cb1))) = length (items (in_contacts cb1))
                 \<and> sql_insert_contacts da (p_id p) (items (in_contacts cb1)) = Inr d1
            else d1 = da"
    and dto: "dto1 = rest_toDTO clock1 p (contactsOf E d1 (p_id p))"
    by blast
  note r = sql_insert_person_Inr [OF i]
  from c have pd: "person d1 = person da"
    by (auto split: if_splits dest: sql_insert_contacts_person)
  from personSchema_required(1) [OF s] obtain e where e: "in_email cb1 = Val e"
    by blast
  from personSchema_Some(9) [OF s] personSchema_Some(9) [OF assms(2)] assms(4)
  have e2: "in_email cb2 = Val e"
    using e by simp
  from r(3) e have "p_email p = e"
    by (auto simp: values_of_def insert_params_def dest: arg_cong [where f = v_email])
  with pd r(1) have "e \<in> set (map p_email (person d1))"
    by simp
  from insert_person_duplicate_email [OF assms(2,3) e2 this]
  have "post_people E d1 now2 clock2 id2 b2 = (Inl (Conflict ''Email already exists''), d1)"
    using assms(2) by (simp add: post_people_def post_people_try_def lift_pg_def on_catch_def)
  moreover have "sql_person_by_id d1 id1 = [p]"
    using pd r(1,2) filter_id_fresh [OF r(4)] by (simp add: sql_person_by_id_def)
  then have "get_person E d1 clock1 id1 None = Inr (Body dto1 (item_etag p))"
    using dto r(2) by (simp add: get_person_def)
  ultimately show ?thesis by blast
qed

section \<open>The paginated list\<close>









section \<open>The two surfaces side by side\<close>

lemma truncate_toDTO: "person_item.truncate (gql_toDTO clock r cs) = to_item clock r"
  by (simp add: gql_toDTO_def to_item_def person_item.truncate_def Let_def)

lemma contacts_toDTO: "dto_contacts (gql_toDTO clock r cs) = cs"
  by (simp add: gql_toDTO_def Let_def)

lemma replace_contacts_Inr:
  assumes "replace_contacts d1 i b = Inr d'"
  shows "if present (in_contacts b)
         then (if items (in_contacts b) \<noteq> []
               then sql_insert_contacts (sql_delete_contacts d1 i) i (items (in_contacts b)) = Inr d'
               else d' = sql_delete_contacts d1 i)
         else d' = d1"
  using assms
  by (auto simp: replace_contacts_def Let_def split: if_splits dest: attach_contacts_Inr(1))

lemma create_parity:
  assumes "post_people E d now clock new_id b = (Inr dto, d')"
    and "personSchema E True b = Some cb"
  shows "gql_createPerson E d now clock new_id cb = (Inr dto, d')"
proof -
  from post_people_Inr [OF assms(1)] assms(2) obtain p d1 where
    i: "sql_insert_person d now new_id (insert_params cb) = Inr (p, d1)"
    and c: "if items (in_contacts cb) \<noteq> []
            then length (sql_existing_ids d1 (items (in_contacts cb))) = length (items (in_contacts cb))
                 \<and> sql_insert_contacts d1 (p_id p) (items (in_contacts cb)) = Inr d'
            else d' = d1"
    and dto: "dto = rest_toDTO clock p (contactsOf E d' (p_id p))"
    by auto
  show ?thesis
  proof (cases "items (in_contacts cb) = []")
    case True
    with i c dto show ?thesis
      by (simp add: gql_createPerson_def toDTO_same)
  next
    case False
    with i c dto show ?thesis
      by (simp add: gql_createPerson_def toDTO_same)
  qed
qed

lemma update_parity:
  assumes "patch_person E d now clock i b = (Inr dto, d')"
    and "personSchema E False b = Some cb"
  shows "gql_updatePerson E d now clock i cb = (Inr dto, d')"
proof -
  from patch_person_Inr [OF assms(1)] assms(2) obtain d1 p ps where
    u: "if set_clause cb \<noteq> [] then sql_update_person d now (set_clause cb) i = Inr d1
        else d1 = d"
    and r: "replace_contacts d1 i cb = Inr d'"
    and n: "sql_person_by_id d' i = p # ps"
    and dto: "dto = rest_toDTO clock p (contactsOf E d' i)"
    by auto
  from n dto have s: "gql_select_person E d' clock i = (Inr dto, d')"
    by (simp add: gql_select_person_def toDTO_same)
  from u have u': "(if set_clause cb \<noteq> [] then sql_update_person d now (set_clause cb) i
                    else Inr d) = Inr d1"
    by (simp split: if_splits)
  note rc = replace_contacts_Inr [OF r]
  show ?thesis
  proof (cases "present (in_contacts cb)")
    case False
    with rc s show ?thesis
      unfolding gql_updatePerson_def u' by simp
  next
    case True
    show ?thesis
    proof (cases "items (in_contacts cb) = []")
      case True
      with \<open>present (in_contacts cb)\<close> rc s show ?thesis
        unfolding gql_updatePerson_def u' by (simp add: Let_def)
    next
      case False
      with \<open>present (in_contacts cb)\<close> rc s show ?thesis
        unfolding gql_updatePerson_def u' by (simp add: Let_def)
    qed
  qed
qed

lemma fetch_parity:
  "get_person E d clock i h = Inr (Body dto tag) \<Longrightarrow> gql_person E d clock i = Some dto"
  "get_person E d clock i h = Inl e \<Longrightarrow> e = NotFound \<and> gql_person E d clock i = None"
  by (auto simp: get_person_def gql_person_def toDTO_same Let_def split: list.splits if_splits)

lemma delete_parity:
  "delete_person d i = (Inr u, d') \<Longrightarrow> gql_deletePerson d i = (True, d')"
  "delete_person d i = (Inl e, d') \<Longrightarrow> e = NotFound \<and> d' = d \<and> gql_deletePerson d i = (False, d)"
  by (auto simp: delete_person_def gql_deletePerson_def sql_delete_person_def Let_def
      split: prod.splits if_splits)

lemma list_parity:
  assumes "get_people E d clock q_limit q_offset h = Inr (Body pg tag)"
    and "\<forall>x. q_offset = Some x \<longrightarrow> x \<le> 2147483647"
  shows "\<exists>gp. gql_people E d clock q_limit q_offset = Inr gp
           \<and> total gp = total pg \<and> limit gp = limit pg \<and> offset gp = offset pg
           \<and> map person_item.truncate (gql_items gp) = rest_items pg
           \<and> map dto_contacts (gql_items gp) = map (\<lambda>it. contactsOf E d (dto_id it)) (rest_items pg)"
proof -
  from assms(1) have q: "querySchema q_limit q_offset"
    by (auto simp: get_people_def split: if_splits)
  with assms(2) have "gql_Int q_limit" "gql_Int q_offset"
    by (auto simp: querySchema_def gql_Int_def split: option.splits)
  with assms(1) q show ?thesis
    by (auto simp: get_people_def gql_people_def Let_def lift_pg_def truncate_toDTO contacts_toDTO
          comp_def to_item_def
        split: if_splits sum.splits)
qed

text \<open>
  Where the validator changes the body the two surfaces part on one and the same
  request: with \<^verbatim>\<open>phone: null\<close> the resource-style create stores the empty string and
  the typed-query create stores null.
\<close>

lemma null_phone_differs:
  "\<exists>dto d'. post_people ex_env ex_db ex_now ex_clock 3 (ex_carol\<lparr>in_phone := Null\<rparr>) = (Inr dto, d')
       \<and> dto_phone dto = Some []"
  "\<exists>dto d'. gql_createPerson ex_env ex_db ex_now ex_clock 3 (ex_carol\<lparr>in_phone := Null\<rparr>)
              = (Inr dto, d')
       \<and> dto_phone dto = None"
  by (simp_all add: handler_defs sql_defs ex_defs rest_toDTO_def gql_toDTO_def Let_def)

text \<open>
  C1, as the claim states it, fails: for an identifier that no person has, the
  resource-style surface throws the 404 (fetch and delete), and the typed-query
  surface reports no error at all: \<^verbatim>\<open>person\<close> returns null and \<^verbatim>\<open>deletePerson\<close> returns
  false.
\<close>

theorem C1_absent_id_counterexample:
  "get_person ex_env ex_db ex_clock 9 None = Inl NotFound
   \<and> gql_person ex_env ex_db ex_clock 9 = None
   \<and> delete_person ex_db 9 = (Inl NotFound, ex_db)
   \<and> gql_deletePerson ex_db 9 = (False, ex_db)"
  by (simp add: handler_defs sql_defs ex_defs)

text \<open>
  C1, amended. Whatever the storage: a create or a partial update that succeeds on the
  resource-style surface has the field values and leaves the storage that the
  typed-query surface gives for the body as the validator of the resource-style
  surface coerces it (a null phone has become the empty string, an empty gender null);
  so for a body that the coercion leaves as it is, the two surfaces agree on the same
  request. A fetch that returns a person returns the same person on both; a delete
  that succeeds returns true on the typed-query surface and leaves the same storage; a
  page of the list whose offset is within the 32 bits of the typed-query surface has
  the same total, limit and offset on both and the same items field for field, the
  typed-query items carrying in addition the contacts of each person. An absent
  identifier is the not-found error on the resource-style surface, and null (fetch) or
  false (delete) without an error on the typed-query surface.
\<close>

theorem C1_success_parity:
  "(post_people E d now clock new_id b_a = (Inr dto_a, d_a) \<and> personSchema E True b_a = Some c_a
      \<longrightarrow> gql_createPerson E d now clock new_id c_a = (Inr dto_a, d_a))
   \<and> (patch_person E d now clock i b_b = (Inr dto_b, d_b) \<and> personSchema E False b_b = Some c_b
      \<longrightarrow> gql_updatePerson E d now clock i c_b = (Inr dto_b, d_b))
   \<and> (get_person E d clock i h = Inr (Body dto_c tag_c) \<longrightarrow> gql_person E d clock i = Some dto_c)
   \<and> (get_person E d clock i h = Inl e_c \<longrightarrow> e_c = NotFound \<and> gql_person E d clock i = None)
   \<and> (delete_person d i = (Inr u, d_d) \<longrightarrow> gql_deletePerson d i = (True, d_d))
   \<and> (delete_person d i = (Inl e_d, d_d)
      \<longrightarrow> e_d = NotFound \<and> d_d = d \<and> gql_deletePerson d i = (False, d))
   \<and> (get_people E d clock q_limit q_offset h = Inr (Body pg tag_e)
        \<and> (\<forall>x. q_offset = Some x \<longrightarrow> x \<le> 2147483647)
      \<longrightarrow> (\<exists>gp. gql_people E d clock q_limit q_offset = Inr gp
             \<and> total gp = total pg \<and> limit gp = limit pg \<and> offset gp = offset pg
             \<and> map person_item.truncate (gql_items gp) = rest_items pg
             \<and> map dto_contacts (gql_items gp)
                 = map (\<lambda>it. contactsOf E d (dto_id it)) (rest_items pg)))"
  using create_parity [of E d now clock new_id b_a dto_a d_a c_a]
    update_parity [of E d now clock i b_b dto_b d_b c_b]
    fetch_parity(1) [of E d clock i h dto_c tag_c] fetch_parity(2) [of E d clock i h e_c]
    delete_parity(1) [of d i u d_d] delete_parity(2) [of d i e_d d_d]
    list_parity [of E d clock q_limit q_offset h pg tag_e]
  by blast

theorem C1_success_parity_witness:
  "(\<exists>dto d'. post_people ex_env ex_db ex_now ex_clock 3 ex_carol = (Inr dto, d')
       \<and> gql_createPerson ex_env ex_db ex_now ex_clock 3 ex_carol = (Inr dto, d'))
   \<and> (\<exists>dto d'. post_people ex_env ex_db ex_now ex_clock 3 (ex_carol\<lparr>in_phone := Null\<rparr>)
                  = (Inr dto, d')
       \<and> gql_createPerson ex_env ex_db ex_now ex_clock 3 (ex_carol\<lparr>in_phone := Val []\<rparr>)
                  = (Inr dto, d'))
   \<and> (\<exists>dto d'. patch_person ex_env ex_db ex_now ex_clock 1 (contacts_only [2]) = (Inr dto, d')
       \<and> gql_updatePerson ex_env ex_db ex_now ex_clock 1 (contacts_only [2]) = (Inr dto, d'))
   \<and> (\<exists>dto tag. get_person ex_env ex_db ex_clock 1 None = Inr (Body dto tag)
       \<and> gql_person ex_env ex_db ex_clock 1 = Some dto)
   \<and> (\<exists>d'. delete_person ex_db 1 = (Inr (), d') \<and> gql_deletePerson ex_db 1 = (True, d'))
   \<and> (\<exists>pg tag gp. get_people ex_env ex_db ex_clock None None None = Inr (Body pg tag)
       \<and> gql_people ex_env ex_db ex_clock None None = Inr gp
       \<and> map person_item.truncate (gql_items gp) = rest_items pg)"
proof -
  obtain dto1 d1 where a: "post_people ex_env ex_db ex_now ex_clock 3 ex_carol = (Inr dto1, d1)"
    by (simp add: handler_defs sql_defs ex_defs)
  have sa: "personSchema ex_env True ex_carol = Some ex_carol"
    by (simp add: personSchema_def ex_carol_def ex_env_def)
  obtain dto0 d0 where
    a': "post_people ex_env ex_db ex_now ex_clock 3 (ex_carol\<lparr>in_phone := Null\<rparr>) = (Inr dto0, d0)"
    by (simp add: handler_defs sql_defs ex_defs)
  have sa': "personSchema ex_env True (ex_carol\<lparr>in_phone := Null\<rparr>)
               = Some (ex_carol\<lparr>in_phone := Val []\<rparr>)"
    by (simp add: personSchema_def ex_carol_def ex_env_def)
  obtain dto2 d2 where b: "patch_person ex_env ex_db ex_now ex_clock 1 (contacts_only [2]) = (Inr dto2, d2)"
    by (simp add: handler_defs sql_defs ex_defs)
  have sb: "personSchema ex_env False (contacts_only [2]) = Some (contacts_only [2])"
    by (simp add: personSchema_def contacts_only_def no_keys_def)
  obtain dto3 tag3 where c: "get_person ex_env ex_db ex_clock 1 None = Inr (Body dto3 tag3)"
    by (simp add: handler_defs sql_defs ex_defs)
  obtain d4 where d: "delete_person ex_db 1 = (Inr (), d4)"
    by (simp add: handler_defs sql_defs ex_defs)
  obtain pg tag5 where e: "get_people ex_env ex_db ex_clock None None None = Inr (Body pg tag5)"
    by (simp add: get_people_def querySchema_def Let_def lift_pg_def sql_page_def sql_count_def
          bind_bigint_def digits_of_def isSafeInteger_def ex_db_def)
  from C1_success_parity [where E = ex_env and d = ex_db and now = ex_now and clock = ex_clock
      and new_id = 3 and b_a = ex_carol and c_a = ex_carol and dto_a = dto1 and d_a = d1] a sa
  have "gql_createPerson ex_env ex_db ex_now ex_clock 3 ex_carol = (Inr dto1, d1)"
    by blast
  moreover
  from C1_success_parity [where E = ex_env and d = ex_db and now = ex_now and clock = ex_clock
      and new_id = 3 and b_a = "ex_carol\<lparr>in_phone := Null\<rparr>"
      and c_a = "ex_carol\<lparr>in_phone := Val []\<rparr>" and dto_a = dto0 and d_a = d0] a' sa'
  have "gql_createPerson ex_env ex_db ex_now ex_clock 3 (ex_carol\<lparr>in_phone := Val []\<rparr>)
          = (Inr dto0, d0)"
    by blast
  moreover
  from C1_success_parity [where E = ex_env and d = ex_db and now = ex_now and clock = ex_clock
      and i = 1 and b_b = "contacts_only [2]" and c_b = "contacts_only [2]"
      and dto_b = dto2 and d_b = d2 and h = None
      and dto_c = dto3 and tag_c = tag3 and u = "()" and d_d = d4
      and q_limit = None and q_offset = None and pg = pg and tag_e = tag5] b sb c d e
  have "gql_updatePerson ex_env ex_db ex_now ex_clock 1 (contacts_only [2]) = (Inr dto2, d2)"
    "gql_person ex_env ex_db ex_clock 1 = Some dto3"
    "gql_deletePerson ex_db 1 = (True, d4)"
    "\<exists>gp. gql_people ex_env ex_db ex_clock None None = Inr gp
       \<and> map person_item.truncate (gql_items gp) = rest_items pg"
    by blast+
  ultimately show ?thesis
    using a a' b c d e by blast
qed

section \<open>The constraints hold in every store the handlers produce\<close>

lemma schema_ok_insert_person:
  assumes "sql_insert_person d now new_id v = Inr (p, d1)" and "schema_ok d"
  shows "schema_ok d1"
  using sql_insert_person_Inr [OF assms(1)] assms(2)
  by (auto simp: schema_ok_def)

lemma replace_row_emails:
  assumes "distinct (map p_id xs)" and "distinct (map p_email xs)"
    and "p_email new \<notin> set (map p_email (filter (\<lambda>r. p_id r \<noteq> i) xs))"
  shows "distinct (map p_email (map (\<lambda>r. if p_id r = i then new else r) xs))"
  using assms
proof (induction xs)
  case Nil
  then show ?case by simp
next
  case (Cons a xs)
  show ?case
  proof (cases "p_id a = i")
    case True
    with Cons.prems(1) have "i \<notin> p_id ` set xs" by simp
    then have "\<forall>r \<in> set xs. p_id r \<noteq> i" by blast
    then have same: "map (\<lambda>r. if p_id r = i then new else r) xs = xs"
      and all: "filter (\<lambda>r. p_id r \<noteq> i) xs = xs"
      by (simp_all add: map_idI)
    from Cons.prems True all show ?thesis
      by (simp add: same)
  next
    case False
    have "set (map p_email (map (\<lambda>r. if p_id r = i then new else r) xs))
            \<subseteq> insert (p_email new) (set (map p_email xs))"
      by auto
    moreover from Cons.prems(3) False have "p_email a \<noteq> p_email new" by auto
    moreover from Cons.prems(2) have "p_email a \<notin> set (map p_email xs)" by simp
    ultimately have "p_email a \<notin> set (map p_email (map (\<lambda>r. if p_id r = i then new else r) xs))"
      by blast
    moreover have "distinct (map p_email (map (\<lambda>r. if p_id r = i then new else r) xs))"
      using Cons.prems False by (intro Cons.IH) auto
    ultimately show ?thesis
      using False by simp
  qed
qed

lemma schema_ok_update_person:
  assumes u: "sql_update_person d now sets i = Inr d1" and ok: "schema_ok d"
  shows "schema_ok d1"
proof (cases "sql_person_by_id d i")
  case Nil
  with u show ?thesis
    using ok by (auto simp: sql_update_person_def sql_person_by_id_def split: option.splits)
next
  case (Cons old olds)
  then have f: "filter (\<lambda>r. p_id r = i) (person d) = old # olds"
    by (simp add: sql_person_by_id_def)
  from u f obtain new where
    m: "make_row (filter (\<lambda>r. p_id r \<noteq> i) (person d)) i (created_at old) now
          (fold assign sets (values_of old)) = Inr new"
    and d1: "d1 = d\<lparr>person := map (\<lambda>r. if p_id r = i then new else r) (person d)\<rparr>"
    by (auto simp: sql_update_person_def split: sum.splits option.splits)
  note r = make_row_Inr [OF m]
  have "distinct (map p_email (person d1))"
    using replace_row_emails [of "person d" new i] ok r(6)
    by (simp add: d1 schema_ok_def)
  moreover have "map p_id (person d1) = map p_id (person d)"
    by (rule sql_update_person_frame(1) [OF u])
  moreover have "person_contacts d1 = person_contacts d"
    by (rule sql_update_person_frame(2) [OF u])
  ultimately show ?thesis
    using ok by (simp add: schema_ok_def)
qed

lemma insert_links_Inr:
  "insert_links tbl new = Inr tbl' \<Longrightarrow>
     tbl' = tbl @ new \<and> distinct new \<and> (\<forall>l \<in> set new. fst l \<noteq> snd l \<and> l \<notin> set tbl)"
proof (induction new arbitrary: tbl)
  case Nil
  then show ?case by simp
next
  case (Cons l new)
  obtain p c where l: "l = (p, c)" by (cases l)
  from Cons.prems l have h: "p \<noteq> c" "(p, c) \<notin> set tbl"
    and rec: "insert_links (tbl @ [(p, c)]) new = Inr tbl'"
    by (auto split: if_splits)
  from Cons.IH [OF rec] h l show ?case by auto
qed

lemma schema_ok_insert_contacts:
  assumes "sql_insert_contacts d i cs = Inr d1" and ok: "schema_ok d"
  shows "schema_ok d1"
proof -
  from assms(1) obtain tbl where
    t: "insert_links (person_contacts d) (map (Pair i) cs) = Inr tbl"
    and fk: "cs = [] \<or> (i \<in> set (map p_id (person d)) \<and> set cs \<subseteq> set (map p_id (person d)))"
    and d1: "d1 = d\<lparr>person_contacts := tbl\<rparr>"
    by (auto simp: sql_insert_contacts_def split: sum.splits if_splits)
  from insert_links_Inr [OF t] have
    tbl: "tbl = person_contacts d @ map (Pair i) cs"
    and dn: "distinct (map (Pair i) cs)"
    and new: "\<forall>l \<in> set (map (Pair i) cs). fst l \<noteq> snd l \<and> l \<notin> set (person_contacts d)"
    by auto
  have "distinct tbl"
    using ok dn new by (auto simp: tbl schema_ok_def)
  moreover have "\<forall>l \<in> set tbl. fst l \<noteq> snd l
           \<and> fst l \<in> set (map p_id (person d)) \<and> snd l \<in> set (map p_id (person d))"
    using ok new fk by (auto simp: tbl schema_ok_def)
  ultimately show ?thesis
    using ok by (simp add: d1 schema_ok_def)
qed

lemma schema_ok_delete_contacts: "schema_ok d \<Longrightarrow> schema_ok (sql_delete_contacts d i)"
  by (auto simp: schema_ok_def sql_delete_contacts_def)

lemma schema_ok_delete_person: "schema_ok d \<Longrightarrow> schema_ok (snd (sql_delete_person d i))"
  by (auto simp: schema_ok_def sql_delete_person_def Let_def distinct_map_filter)

lemma schema_ok_post_people:
  assumes "schema_ok d"
  shows "schema_ok (snd (post_people E d now clock new_id b))"
proof (cases "post_people E d now clock new_id b")
  case (Pair r d')
  show ?thesis
  proof (cases r)
    case (Inl e)
    with Pair post_people_failure_rolls_back [of E d now clock new_id b e d'] assms
    show ?thesis by simp
  next
    case (Inr dto)
    with Pair have "post_people E d now clock new_id b = (Inr dto, d')" by simp
    from post_people_Inr [OF this] obtain cb p d1 where
      i: "sql_insert_person d now new_id (insert_params cb) = Inr (p, d1)"
      and c: "if items (in_contacts cb) \<noteq> []
              then length (sql_existing_ids d1 (items (in_contacts cb))) = length (items (in_contacts cb))
                   \<and> sql_insert_contacts d1 (p_id p) (items (in_contacts cb)) = Inr d'
              else d' = d1"
      by blast
    from schema_ok_insert_person [OF i assms] c have "schema_ok d'"
      by (auto split: if_splits intro: schema_ok_insert_contacts)
    with Pair show ?thesis by simp
  qed
qed

lemma schema_ok_patch_person:
  assumes "schema_ok d"
  shows "schema_ok (snd (patch_person E d now clock i b))"
proof (cases "patch_person E d now clock i b")
  case (Pair r d')
  show ?thesis
  proof (cases r)
    case (Inl e)
    with Pair patch_person_failure_rolls_back [of E d now clock i b e d'] assms
    show ?thesis by simp
  next
    case (Inr dto)
    with Pair have "patch_person E d now clock i b = (Inr dto, d')" by simp
    from patch_person_Inr [OF this] obtain cb d1 where
      u: "if set_clause cb \<noteq> [] then sql_update_person d now (set_clause cb) i = Inr d1
          else d1 = d"
      and r: "replace_contacts d1 i cb = Inr d'"
      by blast
    from u assms have "schema_ok d1"
      by (auto split: if_splits intro: schema_ok_update_person)
    with replace_contacts_Inr [OF r] have "schema_ok d'"
      by (auto split: if_splits intro: schema_ok_insert_contacts schema_ok_delete_contacts)
    with Pair show ?thesis by simp
  qed
qed

lemma schema_ok_delete:
  "schema_ok d \<Longrightarrow> schema_ok (snd (delete_person d i))"
  "schema_ok d \<Longrightarrow> schema_ok (snd (gql_deletePerson d i))"
  using schema_ok_delete_person [of d i]
  by (auto simp: delete_person_def gql_deletePerson_def split: prod.splits)

lemma schema_ok_createPerson:
  assumes "schema_ok d"
  shows "schema_ok (snd (gql_createPerson E d now clock new_id b))"
  using assms
  by (auto simp: gql_createPerson_def split: sum.splits prod.splits if_splits
      intro: schema_ok_insert_person schema_ok_insert_contacts)

lemma schema_ok_select: "snd (gql_select_person E d clock i) = d"
  by (simp add: gql_select_person_def split: list.splits)

lemma schema_ok_updatePerson:
  assumes "schema_ok d"
  shows "schema_ok (snd (gql_updatePerson E d now clock i b))"
  using assms
  by (auto simp: gql_updatePerson_def Let_def schema_ok_select
      split: sum.splits if_splits
      intro: schema_ok_update_person schema_ok_insert_contacts schema_ok_delete_contacts)

theorem reachable_schema_ok: "reachable d \<Longrightarrow> schema_ok d"
proof (induction rule: reachable.induct)
  case empty
  show ?case by (simp add: schema_ok_def)
qed (simp_all add: schema_ok_post_people schema_ok_patch_person schema_ok_delete
       schema_ok_createPerson schema_ok_updatePerson)

section \<open>The contact check of the resource-style surface\<close>

text \<open>
  The counterpart of the typed-query create. On the resource-style surface a create or an update whose
  contact list names an identifier that no person has is refused with the 400 of the
  contact check, once the schema and the write of the row itself have passed, and the
  storage is the one before the request. (The insert or update of the row comes first
  in the handler, so a duplicate email is reported as the conflict even when a contact
  is missing as well.)
\<close>

lemma attach_contacts_missing:
  assumes "distinct (map p_id (person d))" and "distinct cs"
    and "\<not> set cs \<subseteq> set (map p_id (person d))"
  shows "attach_contacts d i cs = Inl (BadRequest ''One or more contact IDs do not exist'')"
  using existing_ids_all [OF assms(1,2)] assms(3)
  by (simp add: attach_contacts_def)

lemma post_people_missing_contact:
  assumes schema: "personSchema E True b = Some cb" and pk: "distinct (map p_id (person d))"
    and ins: "sql_insert_person d now new_id (insert_params cb) = Inr (p, d1)"
    and c: "c \<in> set (items (in_contacts b))" "c \<notin> set (map p_id (person d))" "c \<noteq> new_id"
  shows "post_people E d now clock new_id b
           = (Inl (BadRequest ''One or more contact IDs do not exist''), d)"
proof -
  note r = sql_insert_person_Inr [OF ins]
  from r(1,2,4) pk have pk1: "distinct (map p_id (person d1))"
    by simp
  note s = personSchema_Some [OF schema]
  from s(3,4) have dc: "distinct (items (in_contacts cb))"
    by simp
  from c r(1,2) s(3) have "\<not> set (items (in_contacts cb)) \<subseteq> set (map p_id (person d1))"
    by auto
  from attach_contacts_missing [OF pk1 dc this] c(1) ins schema s(3) show ?thesis
    by (auto simp: post_people_def post_people_try_def lift_pg_def on_catch_def)
qed

lemma patch_person_missing_contact:
  assumes schema: "personSchema E False b = Some cb" and pk: "distinct (map p_id (person d))"
    and ex: "sql_person_by_id d i \<noteq> []"
    and u: "set_clause cb = [] \<or> sql_update_person d now (set_clause cb) i = Inr d1"
    and c: "c \<in> set (items (in_contacts b))" "c \<notin> set (map p_id (person d))"
  shows "patch_person E d now clock i b
           = (Inl (BadRequest ''One or more contact IDs do not exist''), d)"
proof -
  define d1' where "d1' = (if set_clause cb = [] then d else d1)"
  from u have u': "(if set_clause cb \<noteq> []
                    then lift_pg (sql_update_person d now (set_clause cb) i)
                    else Inr d) = Inr d1'"
    by (auto simp: d1'_def lift_pg_def)
  from u have ids: "map p_id (person d1') = map p_id (person d)"
    by (auto simp: d1'_def dest: sql_update_person_frame(1))
  let ?d2 = "sql_delete_contacts d1' i"
  have p2: "map p_id (person ?d2) = map p_id (person d)"
    using ids by (simp add: sql_delete_contacts_def)
  note s = personSchema_Some [OF schema]
  from s(3,4) have dc: "distinct (items (in_contacts cb))"
    by simp
  from c s(3) have ne: "items (in_contacts cb) \<noteq> []" and pr: "present (in_contacts cb)"
    by (cases "in_contacts b"; auto)+
  from c p2 s(3) have "\<not> set (items (in_contacts cb)) \<subseteq> set (map p_id (person ?d2))"
    by auto
  from attach_contacts_missing [OF _ dc this, of i] pk p2
  have "replace_contacts d1' i cb = Inl (BadRequest ''One or more contact IDs do not exist'')"
    using ne pr by (simp add: replace_contacts_def Let_def)
  with ex schema show ?thesis
    unfolding patch_person_def patch_person_try_def
    by (cases "sql_person_by_id d i") (simp_all add: u' on_catch_def)
qed

text \<open>
  The typed-query update in the same situation: the update of the row and the deletion
  of the old links are committed before the insert of the new links fails.
\<close>

lemma updatePerson_keeps_changes_on_failure:
  "gql_updatePerson ex_env (ex_db\<lparr>person_contacts := [(1, 2)]\<rparr>) ex_now ex_clock 1
       (no_keys\<lparr>in_phone := Val ''+999'', in_contacts := Val [7]\<rparr>)
     = (Inl (Pg Foreign_key_violation),
        \<lparr>person = [ex_bob, ex_alice\<lparr>p_phone := Some ''+999'', updated_at := ex_now\<rparr>],
         person_contacts = []\<rparr>)
   \<and> patch_person ex_env (ex_db\<lparr>person_contacts := [(1, 2)]\<rparr>) ex_now ex_clock 1
       (no_keys\<lparr>in_phone := Val ''+999'', in_contacts := Val [7]\<rparr>)
     = (Inl (BadRequest ''One or more contact IDs do not exist''),
        ex_db\<lparr>person_contacts := [(1, 2)]\<rparr>)"
  by (simp add: handler_defs sql_defs ex_defs)

end
